theory Spec2Isabelle
  imports Main "HOL-Library.Word"
begin

section \<open>PinPilot firmware: the sketch in firmware/src/main.cpp\<close>

text \<open>
  The sketch is a single-threaded Arduino program: \<open>setup\<close> runs once, then \<open>loop\<close> runs
  again and again. Everything it does is a call into the board support package (serial
  port, pins, \<open>delay\<close>, \<open>millis\<close>), the WiFi stack or the PubSubClient object \<open>mqtt\<close>.
  The model threads a state record through the code. The state holds the one variable of
  the sketch (\<open>last\<close>), the log of the external calls performed so far, in program order,
  and, for every kind of call that returns a value, the number of calls made so far. The
  answers of the outside world are an \<open>env\<close>: the answer to the \<open>k\<close>-th call of each kind.
  A loop that may block forever is a partial function into \<open>option\<close>, where \<open>None\<close> is
  "does not return".
\<close>

subsection \<open>Compile-time configuration\<close>

text \<open>
  \<open>pinmap.h\<close> and the build flags decide whether \<open>DEVICE_NAME\<close>, \<open>EPAPER_SPI_2P13_CS\<close> and
  \<open>WS2812_DIN\<close> are defined. A macro that is not defined is \<open>None\<close>.
\<close>

record config =
  DEVICE_NAME_macro :: "string option"
  EPAPER_SPI_2P13_CS :: "nat option"
  WS2812_DIN :: "nat option"

definition DEVICE_NAME :: "config \<Rightarrow> string" where
  "DEVICE_NAME cfg = (case DEVICE_NAME_macro cfg of None \<Rightarrow> ''pinpilot_device'' | Some n \<Rightarrow> n)"

definition WIFI_SSID :: string where
  "WIFI_SSID = ''YOUR_WIFI''"

definition WIFI_PASS :: string where
  "WIFI_PASS = ''YOUR_PASS''"

definition MQTT_HOST :: string where
  "MQTT_HOST = ''192.168.1.10''"

definition MQTT_PORT :: int where
  "MQTT_PORT = 1883"

subsection \<open>The outside world\<close>

type_synonym u32 = "32 word"

datatype wl_status =
  WL_NO_SHIELD | WL_IDLE_STATUS | WL_NO_SSID_AVAIL | WL_SCAN_COMPLETED | WL_CONNECTED
  | WL_CONNECT_FAILED | WL_CONNECTION_LOST | WL_DISCONNECTED

datatype wifi_mode = WIFI_OFF | WIFI_STA | WIFI_AP | WIFI_AP_STA

datatype pin_mode = INPUT | OUTPUT

datatype level = LOW | HIGH

text \<open>
  One entry of the log per external call, with the value the call returned where the
  sketch reads it. \<open>Millis t\<close> is a call of \<open>millis()\<close> made \<open>t\<close> milliseconds after boot.
\<close>

datatype event =
  SerialBegin nat
  | SerialPrint string
  | SerialPrintInt int
  | SerialPrintln string
  | Delay nat
  | PinMode nat pin_mode
  | DigitalWrite nat level
  | WiFiMode wifi_mode
  | WiFiBegin string string
  | WiFiStatus wl_status
  | MqttSetServer string int
  | MqttConnected bool
  | MqttConnect string bool
  | MqttState int
  | MqttPublish string string
  | MqttLoop
  | Millis nat

record env =
  wifi_status_at :: "nat \<Rightarrow> wl_status"
  mqtt_connected_at :: "nat \<Rightarrow> bool"
  mqtt_connect_at :: "nat \<Rightarrow> bool"
  mqtt_state_at :: "nat \<Rightarrow> int"
  clock_at :: "nat \<Rightarrow> nat"

text \<open>
  \<open>last_ms\<close> is the \<open>static uint32_t last\<close> of \<open>loop\<close> (the name \<open>last\<close> is taken by lists).
\<close>

record state =
  last_ms :: u32
  events :: "event list"
  wifi_polls :: nat
  conn_polls :: nat
  connect_calls :: nat
  state_calls :: nat
  millis_calls :: nat

definition boot :: state where
  "boot = \<lparr>last_ms = 0, events = [], wifi_polls = 0, conn_polls = 0, connect_calls = 0,
     state_calls = 0, millis_calls = 0\<rparr>"

definition emit :: "event \<Rightarrow> state \<Rightarrow> state" where
  "emit e s = s\<lparr>events := events s @ [e]\<rparr>"

subsection \<open>External calls\<close>

definition Serial_begin :: "nat \<Rightarrow> state \<Rightarrow> state" where
  "Serial_begin baud s = emit (SerialBegin baud) s"

definition Serial_print :: "string \<Rightarrow> state \<Rightarrow> state" where
  "Serial_print str s = emit (SerialPrint str) s"

definition Serial_print_int :: "int \<Rightarrow> state \<Rightarrow> state" where
  "Serial_print_int n s = emit (SerialPrintInt n) s"

definition Serial_println :: "string \<Rightarrow> state \<Rightarrow> state" where
  "Serial_println str s = emit (SerialPrintln str) s"

definition delay :: "nat \<Rightarrow> state \<Rightarrow> state" where
  "delay ms s = emit (Delay ms) s"

definition pinMode :: "nat \<Rightarrow> pin_mode \<Rightarrow> state \<Rightarrow> state" where
  "pinMode pin m s = emit (PinMode pin m) s"

definition digitalWrite :: "nat \<Rightarrow> level \<Rightarrow> state \<Rightarrow> state" where
  "digitalWrite pin v s = emit (DigitalWrite pin v) s"

definition WiFi_mode :: "wifi_mode \<Rightarrow> state \<Rightarrow> state" where
  "WiFi_mode m s = emit (WiFiMode m) s"

definition WiFi_begin :: "string \<Rightarrow> string \<Rightarrow> state \<Rightarrow> state" where
  "WiFi_begin ssid pass s = emit (WiFiBegin ssid pass) s"

definition WiFi_status :: "env \<Rightarrow> state \<Rightarrow> wl_status \<times> state" where
  "WiFi_status env s =
     (let r = wifi_status_at env (wifi_polls s)
      in (r, emit (WiFiStatus r) (s\<lparr>wifi_polls := Suc (wifi_polls s)\<rparr>)))"

definition mqtt_setServer :: "string \<Rightarrow> int \<Rightarrow> state \<Rightarrow> state" where
  "mqtt_setServer host port s = emit (MqttSetServer host port) s"

definition mqtt_connected :: "env \<Rightarrow> state \<Rightarrow> bool \<times> state" where
  "mqtt_connected env s =
     (let r = mqtt_connected_at env (conn_polls s)
      in (r, emit (MqttConnected r) (s\<lparr>conn_polls := Suc (conn_polls s)\<rparr>)))"

definition mqtt_connect :: "string \<Rightarrow> env \<Rightarrow> state \<Rightarrow> bool \<times> state" where
  "mqtt_connect client_id env s =
     (let r = mqtt_connect_at env (connect_calls s)
      in (r, emit (MqttConnect client_id r) (s\<lparr>connect_calls := Suc (connect_calls s)\<rparr>)))"

definition mqtt_state :: "env \<Rightarrow> state \<Rightarrow> int \<times> state" where
  "mqtt_state env s =
     (let r = mqtt_state_at env (state_calls s)
      in (r, emit (MqttState r) (s\<lparr>state_calls := Suc (state_calls s)\<rparr>)))"

definition mqtt_publish :: "string \<Rightarrow> string \<Rightarrow> state \<Rightarrow> state" where
  "mqtt_publish topic payload s = emit (MqttPublish topic payload) s"

definition mqtt_loop :: "state \<Rightarrow> state" where
  "mqtt_loop s = emit MqttLoop s"

text \<open>
  \<open>millis()\<close> returns the time since boot in milliseconds as an \<open>unsigned long\<close>, 32 bits
  on the target: the counter wraps to 0 after \<open>2 ^ 32\<close> ms.
\<close>

definition millis_of :: "nat \<Rightarrow> u32" where
  "millis_of t = word_of_nat t"

definition millis :: "env \<Rightarrow> state \<Rightarrow> u32 \<times> state" where
  "millis env s =
     (let t = clock_at env (millis_calls s)
      in (millis_of t, emit (Millis t) (s\<lparr>millis_calls := Suc (millis_calls s)\<rparr>)))"

subsection \<open>The sketch\<close>

text \<open>The \<open>while\<close> loop of \<open>connectWiFi\<close>, then the function itself.\<close>

partial_function (option) connectWiFi_while :: "env \<Rightarrow> state \<Rightarrow> state option" where
  "connectWiFi_while env s =
     (case WiFi_status env s of (st, s1) \<Rightarrow>
        if st \<noteq> WL_CONNECTED
        then connectWiFi_while env (Serial_print ''.'' (delay 300 s1))
        else Some s1)"

definition connectWiFi :: "env \<Rightarrow> state \<Rightarrow> state option" where
  "connectWiFi env s =
     (case connectWiFi_while env (WiFi_begin WIFI_SSID WIFI_PASS (WiFi_mode WIFI_STA s)) of
        None \<Rightarrow> None
      | Some s1 \<Rightarrow> Some (Serial_println ''\<newline>WiFi connected'' s1))"

text \<open>The body of the \<open>while\<close> loop of \<open>mqttReconnect\<close>, then the function itself.\<close>

definition mqttReconnect_body :: "config \<Rightarrow> env \<Rightarrow> state \<Rightarrow> state" where
  "mqttReconnect_body cfg env s =
     (case mqtt_connect (DEVICE_NAME cfg) env (Serial_print ''MQTT connecting...'' s) of
        (ok, s1) \<Rightarrow>
          if ok then
            mqtt_publish ''pinpilot/status'' ''online'' (Serial_println ''connected'' s1)
          else
            (case mqtt_state env (Serial_print ''failed rc='' s1) of (rc, s2) \<Rightarrow>
               delay 2000 (Serial_println '' retry in 2s'' (Serial_print_int rc s2))))"

partial_function (option) mqttReconnect :: "config \<Rightarrow> env \<Rightarrow> state \<Rightarrow> state option" where
  "mqttReconnect cfg env s =
     (case mqtt_connected env s of (c, s1) \<Rightarrow>
        if \<not> c then mqttReconnect cfg env (mqttReconnect_body cfg env s1)
        else Some s1)"

text \<open>
  \<open>setup\<close> of the source, under another name (\<open>setup\<close> is reserved in theory files). Each
  \<open>#ifdef\<close> block is there when its macro is defined.
\<close>

definition setup_sketch :: "config \<Rightarrow> env \<Rightarrow> state \<Rightarrow> state option" where
  "setup_sketch cfg env s =
     (let s1 = delay 200 (Serial_begin 115200 s);
          s2 = (case EPAPER_SPI_2P13_CS cfg of
                  None \<Rightarrow> s1
                | Some p \<Rightarrow> digitalWrite p HIGH (pinMode p OUTPUT s1));
          s3 = (case WS2812_DIN cfg of
                  None \<Rightarrow> s2
                | Some p \<Rightarrow> digitalWrite p LOW (pinMode p OUTPUT s2))
      in case connectWiFi env s3 of
           None \<Rightarrow> None
         | Some s4 \<Rightarrow> Some (mqtt_setServer MQTT_HOST MQTT_PORT s4))"

text \<open>
  The condition of the \<open>if\<close> in \<open>loop\<close>, \<open>millis() - last > 5000\<close>, on 32-bit unsigned values;
  then \<open>loop\<close>.
\<close>

definition heartbeat_due :: "u32 \<Rightarrow> u32 \<Rightarrow> bool" where
  "heartbeat_due now lst = (now - lst > 5000)"

definition loop :: "config \<Rightarrow> env \<Rightarrow> state \<Rightarrow> state option" where
  "loop cfg env s =
     (case mqtt_connected env s of (c, s1) \<Rightarrow>
        case (if \<not> c then mqttReconnect cfg env s1 else Some s1) of
          None \<Rightarrow> None
        | Some s2 \<Rightarrow>
            (case millis env (mqtt_loop s2) of (now, s3) \<Rightarrow>
               if heartbeat_due now (last_ms s3) then
                 (case millis env s3 of (now2, s4) \<Rightarrow>
                    Some (mqtt_publish ''pinpilot/heartbeat'' (DEVICE_NAME cfg)
                            (s4\<lparr>last_ms := now2\<rparr>)))
               else Some s3))"

text \<open>
  The Arduino runtime calls \<open>setup()\<close> once from the boot state, then \<open>loop()\<close> for ever.
  \<open>loops n\<close> is \<open>n\<close> iterations, and \<open>run n\<close> the program up to the end of iteration \<open>n\<close>.
\<close>

fun loops :: "nat \<Rightarrow> config \<Rightarrow> env \<Rightarrow> state \<Rightarrow> state option" where
  "loops 0 cfg env s = Some s"
| "loops (Suc n) cfg env s =
     (case loop cfg env s of None \<Rightarrow> None | Some s1 \<Rightarrow> loops n cfg env s1)"

definition run :: "nat \<Rightarrow> config \<Rightarrow> env \<Rightarrow> state option" where
  "run n cfg env =
     (case setup_sketch cfg env boot of None \<Rightarrow> None | Some s \<Rightarrow> loops n cfg env s)"

section \<open>Vocabulary of the properties\<close>

text \<open>
  Nothing below this line is part of the sketch. These definitions name what the
  properties talk about: pieces of the log, and what a call leaves behind.
\<close>

subsection \<open>Waiting for the network\<close>

text \<open>
  The log of \<open>k\<close> rounds of the loop of \<open>connectWiFi\<close> in which the poll does not report
  \<open>WL_CONNECTED\<close>, the first of them being poll number \<open>c\<close>: the poll, a delay of 300 ms,
  a dot on the serial port.
\<close>

fun wifi_wait :: "env \<Rightarrow> nat \<Rightarrow> nat \<Rightarrow> event list" where
  "wifi_wait env c 0 = []"
| "wifi_wait env c (Suc k) =
     [WiFiStatus (wifi_status_at env c), Delay 300, SerialPrint ''.''] @ wifi_wait env (Suc c) k"

text \<open>
  The state \<open>connectWiFi\<close> leaves when it is called in state \<open>s\<close> and the poll number \<open>k\<close>
  from there is the first to report \<open>WL_CONNECTED\<close>.
\<close>

definition connectWiFi_result :: "env \<Rightarrow> state \<Rightarrow> nat \<Rightarrow> state" where
  "connectWiFi_result env s k =
     s\<lparr>wifi_polls := wifi_polls s + Suc k,
       events := events s @ [WiFiMode WIFI_STA, WiFiBegin WIFI_SSID WIFI_PASS] @
         wifi_wait env (wifi_polls s) k @
         [WiFiStatus WL_CONNECTED, SerialPrintln ''\<newline>WiFi connected'']\<rparr>"

subsection \<open>Reconnecting to the broker\<close>

text \<open>
  \<open>k\<close> rounds of the loop of \<open>mqttReconnect\<close>: the poll of \<open>mqtt.connected()\<close> that opens a
  round, then the body.
\<close>

fun attempts :: "nat \<Rightarrow> config \<Rightarrow> env \<Rightarrow> state \<Rightarrow> state" where
  "attempts 0 cfg env s = s"
| "attempts (Suc k) cfg env s =
     attempts k cfg env (mqttReconnect_body cfg env (snd (mqtt_connected env s)))"

text \<open>
  The log of \<open>n\<close> rounds in which the client reports disconnected and the connect fails;
  \<open>c\<close> is the number of calls of \<open>mqtt.state()\<close> made before.
\<close>

fun failed_attempts :: "config \<Rightarrow> env \<Rightarrow> nat \<Rightarrow> nat \<Rightarrow> event list" where
  "failed_attempts cfg env c 0 = []"
| "failed_attempts cfg env c (Suc n) =
     [MqttConnected False, SerialPrint ''MQTT connecting...'',
      MqttConnect (DEVICE_NAME cfg) False, SerialPrint ''failed rc='',
      MqttState (mqtt_state_at env c), SerialPrintInt (mqtt_state_at env c),
      SerialPrintln '' retry in 2s'', Delay 2000] @ failed_attempts cfg env (Suc c) n"

text \<open>The log of the round in which the connect succeeds, and of the poll that ends the loop.\<close>

definition successful_attempt :: "config \<Rightarrow> event list" where
  "successful_attempt cfg =
     [MqttConnected False, SerialPrint ''MQTT connecting...'',
      MqttConnect (DEVICE_NAME cfg) True, SerialPrintln ''connected'',
      MqttPublish ''pinpilot/status'' ''online'', MqttConnected True]"

text \<open>
  The log of \<open>k\<close> rounds of the loop of \<open>mqttReconnect\<close> whatever the connects answer:
  \<open>c\<close> is the number of calls of \<open>mqtt.connect\<close> made before and \<open>d\<close> the number of calls
  of \<open>mqtt.state()\<close>. A round is the poll that reports disconnected, the connect with the
  device name and, when it succeeds, the publish of \<open>online\<close>; when it fails, the report
  of the client state and the delay of 2000 ms.
\<close>

fun rounds :: "config \<Rightarrow> env \<Rightarrow> nat \<Rightarrow> nat \<Rightarrow> nat \<Rightarrow> event list" where
  "rounds cfg env c d 0 = []"
| "rounds cfg env c d (Suc k) =
     (if mqtt_connect_at env c then
        [MqttConnected False, SerialPrint ''MQTT connecting...'',
         MqttConnect (DEVICE_NAME cfg) True, SerialPrintln ''connected'',
         MqttPublish ''pinpilot/status'' ''online''] @ rounds cfg env (Suc c) d k
      else
        [MqttConnected False, SerialPrint ''MQTT connecting...'',
         MqttConnect (DEVICE_NAME cfg) False, SerialPrint ''failed rc='',
         MqttState (mqtt_state_at env d), SerialPrintInt (mqtt_state_at env d),
         SerialPrintln '' retry in 2s'', Delay 2000] @ rounds cfg env (Suc c) (Suc d) k)"

text \<open>How many of the \<open>k\<close> connects from number \<open>c\<close> on succeed, and how many fail.\<close>

fun successes :: "env \<Rightarrow> nat \<Rightarrow> nat \<Rightarrow> nat" where
  "successes env c 0 = 0"
| "successes env c (Suc k) = (if mqtt_connect_at env c then 1 else 0) + successes env (Suc c) k"

fun failures :: "env \<Rightarrow> nat \<Rightarrow> nat \<Rightarrow> nat" where
  "failures env c 0 = 0"
| "failures env c (Suc k) = (if mqtt_connect_at env c then 0 else 1) + failures env (Suc c) k"

subsection \<open>Reading the log\<close>

text \<open>What was logged between state \<open>s\<close> and a later state \<open>s'\<close>.\<close>

definition new_events :: "state \<Rightarrow> state \<Rightarrow> event list" where
  "new_events s s' = drop (length (events s)) (events s')"

fun is_publish :: "event \<Rightarrow> bool" where
  "is_publish (MqttPublish topic payload) = True"
| "is_publish e = False"

fun is_heartbeat :: "event \<Rightarrow> bool" where
  "is_heartbeat (MqttPublish topic payload) = (topic = ''pinpilot/heartbeat'')"
| "is_heartbeat e = False"

fun is_status :: "event \<Rightarrow> bool" where
  "is_status (MqttPublish topic payload) = (topic = ''pinpilot/status'')"
| "is_status e = False"

fun is_connect_ok :: "event \<Rightarrow> bool" where
  "is_connect_ok (MqttConnect client_id ok) = ok"
| "is_connect_ok e = False"

fun is_connect_failed :: "event \<Rightarrow> bool" where
  "is_connect_failed (MqttConnect client_id ok) = (\<not> ok)"
| "is_connect_failed e = False"

fun is_millis :: "event \<Rightarrow> bool" where
  "is_millis (Millis t) = True"
| "is_millis e = False"

fun is_pin_op :: "event \<Rightarrow> bool" where
  "is_pin_op (PinMode pin m) = True"
| "is_pin_op (DigitalWrite pin v) = True"
| "is_pin_op e = False"

text \<open>The only calls \<open>mqttReconnect\<close> makes.\<close>

fun reconnect_event :: "config \<Rightarrow> event \<Rightarrow> bool" where
  "reconnect_event cfg (MqttConnected c) = True"
| "reconnect_event cfg (SerialPrint str) = True"
| "reconnect_event cfg (SerialPrintInt n) = True"
| "reconnect_event cfg (SerialPrintln str) = True"
| "reconnect_event cfg (MqttConnect client_id ok) = (client_id = DEVICE_NAME cfg)"
| "reconnect_event cfg (MqttState rc) = True"
| "reconnect_event cfg (Delay ms) = (ms = 2000)"
| "reconnect_event cfg (MqttPublish topic payload) =
     (topic = ''pinpilot/status'' \<and> payload = ''online'')"
| "reconnect_event cfg e = False"

subsection \<open>One iteration of loop\<close>

text \<open>The first statement of \<open>loop\<close>: \<open>if (!mqtt.connected()) mqttReconnect();\<close>\<close>

definition loop_connect :: "config \<Rightarrow> env \<Rightarrow> state \<Rightarrow> state option" where
  "loop_connect cfg env s =
     (case mqtt_connected env s of (c, s1) \<Rightarrow>
        if \<not> c then mqttReconnect cfg env s1 else Some s1)"

text \<open>
  What the rest of \<open>loop\<close> does to the state: the keepalive poll and a read of the clock,
  and when the heartbeat is due a second read of the clock, stored in \<open>last\<close>, and the
  publish.
\<close>

definition loop_rest :: "config \<Rightarrow> env \<Rightarrow> state \<Rightarrow> state" where
  "loop_rest cfg env s =
     (if heartbeat_due (millis_of (clock_at env (millis_calls s))) (last_ms s) then
        s\<lparr>last_ms := millis_of (clock_at env (Suc (millis_calls s))),
          millis_calls := millis_calls s + 2,
          events := events s @
            [MqttLoop, Millis (clock_at env (millis_calls s)),
             Millis (clock_at env (Suc (millis_calls s))),
             MqttPublish ''pinpilot/heartbeat'' (DEVICE_NAME cfg)]\<rparr>
      else
        s\<lparr>millis_calls := Suc (millis_calls s),
          events := events s @ [MqttLoop, Millis (clock_at env (millis_calls s))]\<rparr>)"

text \<open>
  The elapsed time that the iteration of \<open>loop\<close> starting in state \<open>s\<close> computes: the
  next reading of the counter minus \<open>last\<close>, as a 32-bit unsigned value.
\<close>

definition elapsed :: "env \<Rightarrow> state \<Rightarrow> nat" where
  "elapsed env s = unat (millis_of (clock_at env (millis_calls s)) - last_ms s)"

subsection \<open>Initialization\<close>

text \<open>The log of one of the two conditional blocks of \<open>setup\<close>.\<close>

fun pin_init :: "nat option \<Rightarrow> level \<Rightarrow> event list" where
  "pin_init None v = []"
| "pin_init (Some p) v = [PinMode p OUTPUT, DigitalWrite p v]"

text \<open>
  The state \<open>setup\<close> leaves when it is called in state \<open>s\<close> and the poll number \<open>k\<close> from
  there is the first to report \<open>WL_CONNECTED\<close>.
\<close>

definition setup_result :: "config \<Rightarrow> env \<Rightarrow> state \<Rightarrow> nat \<Rightarrow> state" where
  "setup_result cfg env s k =
     s\<lparr>wifi_polls := wifi_polls s + Suc k,
       events := events s @ [SerialBegin 115200, Delay 200] @
         pin_init (EPAPER_SPI_2P13_CS cfg) HIGH @ pin_init (WS2812_DIN cfg) LOW @
         [WiFiMode WIFI_STA, WiFiBegin WIFI_SSID WIFI_PASS] @
         wifi_wait env (wifi_polls s) k @
         [WiFiStatus WL_CONNECTED, SerialPrintln ''\<newline>WiFi connected'',
          MqttSetServer MQTT_HOST MQTT_PORT]\<rparr>"

subsection \<open>Heartbeats in the log\<close>

text \<open>
  The time of a heartbeat is the reading of the clock that precedes its publish in the
  log (the reading \<open>loop\<close> stores in \<open>last\<close>). \<open>heartbeat_times prev evs\<close> lists the times
  of the heartbeats of \<open>evs\<close> in order, \<open>prev\<close> being the last reading before \<open>evs\<close>.
\<close>

fun heartbeat_times :: "nat option \<Rightarrow> event list \<Rightarrow> nat list" where
  "heartbeat_times prev [] = []"
| "heartbeat_times prev (Millis t # evs) = heartbeat_times (Some t) evs"
| "heartbeat_times prev (MqttPublish topic payload # evs) =
     (if topic = ''pinpilot/heartbeat''
      then (case prev of None \<Rightarrow> [] | Some t \<Rightarrow> [t]) @ heartbeat_times prev evs
      else heartbeat_times prev evs)"
| "heartbeat_times prev (e # evs) = heartbeat_times prev evs"

text \<open>Consecutive times are more than 5000 ms apart.\<close>

fun spaced :: "nat list \<Rightarrow> bool" where
  "spaced (a # b # ts) = (a + 5000 < b \<and> spaced (b # ts))"
| "spaced ts = True"

text \<open>
  What every iteration of \<open>loop\<close> maintains: the heartbeats of the log are spaced, each of
  them has a time, and \<open>last\<close> holds the time of the latest one, which is a reading of the
  clock already made.
\<close>

definition heartbeat_inv :: "env \<Rightarrow> state \<Rightarrow> bool" where
  "heartbeat_inv env s =
     (spaced (heartbeat_times None (events s)) \<and>
      length (heartbeat_times None (events s)) = length (filter is_heartbeat (events s)) \<and>
      (heartbeat_times None (events s) = [] \<or>
       last_ms s = millis_of (last (heartbeat_times None (events s))) \<and>
       list_ex (\<lambda>i. clock_at env i = last (heartbeat_times None (events s)))
         [0..<millis_calls s]))"

text \<open>The clock never runs backwards.\<close>

definition clock_mono :: "env \<Rightarrow> bool" where
  "clock_mono env = (\<forall>i j. i \<le> j \<longrightarrow> clock_at env i \<le> clock_at env j)"

subsection \<open>Publishes in the log\<close>

text \<open>
  Every publish of the log is one of the two messages of the sketch, and there are as
  many publishes to \<open>pinpilot/status\<close> as successful connects.
\<close>

definition publishes_ok :: "config \<Rightarrow> event list \<Rightarrow> bool" where
  "publishes_ok cfg evs =
     (set (filter is_publish evs) \<subseteq>
        {MqttPublish ''pinpilot/status'' ''online'',
         MqttPublish ''pinpilot/heartbeat'' (DEVICE_NAME cfg)} \<and>
      length (filter is_status evs) = length (filter is_connect_ok evs))"

section \<open>Concrete environments and configurations\<close>

text \<open>
  The link associates at poll number \<open>wifi_down\<close>, the client reports connected from poll
  number \<open>mqtt_down\<close> on, connects succeed from attempt number \<open>connect_fails\<close> on, the
  client state is -2 (connect failed), and \<open>clk\<close> is the clock.
\<close>

definition env_of :: "nat \<Rightarrow> nat \<Rightarrow> nat \<Rightarrow> (nat \<Rightarrow> nat) \<Rightarrow> env" where
  "env_of wifi_down mqtt_down connect_fails clk =
     \<lparr>wifi_status_at = (\<lambda>i. if i < wifi_down then WL_DISCONNECTED else WL_CONNECTED),
      mqtt_connected_at = (\<lambda>i. mqtt_down \<le> i),
      mqtt_connect_at = (\<lambda>i. connect_fails \<le> i),
      mqtt_state_at = (\<lambda>i. - 2), clock_at = clk\<rparr>"

text \<open>The access point refuses the credentials for ever.\<close>

definition env_wifi_never :: env where
  "env_wifi_never =
     \<lparr>wifi_status_at = (\<lambda>i. WL_CONNECT_FAILED),
      mqtt_connected_at = (\<lambda>i. True), mqtt_connect_at = (\<lambda>i. True),
      mqtt_state_at = (\<lambda>i. 0), clock_at = (\<lambda>i. 0)\<rparr>"

text \<open>The network is there and the broker is not.\<close>

definition env_broker_never :: env where
  "env_broker_never =
     \<lparr>wifi_status_at = (\<lambda>i. WL_CONNECTED),
      mqtt_connected_at = (\<lambda>i. False), mqtt_connect_at = (\<lambda>i. False),
      mqtt_state_at = (\<lambda>i. - 2), clock_at = (\<lambda>i. 0)\<rparr>"

text \<open>A build with no macro defined, and one with all three.\<close>

definition cfg_default :: config where
  "cfg_default = \<lparr>DEVICE_NAME_macro = None, EPAPER_SPI_2P13_CS = None, WS2812_DIN = None\<rparr>"

definition cfg_board :: config where
  "cfg_board = \<lparr>DEVICE_NAME_macro = Some ''bench_unit'', EPAPER_SPI_2P13_CS = Some 5,
     WS2812_DIN = Some 48\<rparr>"

text \<open>Network and broker are up and every reading of the clock is \<open>t\<close>.\<close>

definition env_still :: "nat \<Rightarrow> env" where
  "env_still t = env_of 0 0 0 (\<lambda>i. t)"

text \<open>
  The client reports disconnected at the first two polls and connected from then on, every
  connect succeeds, and every reading of the clock is \<open>t\<close>.
\<close>

definition env_dropped :: "nat \<Rightarrow> env" where
  "env_dropped t = env_of 0 2 0 (\<lambda>i. t)"

text \<open>A board variant with the LED data pin only.\<close>

definition cfg_led_only :: config where
  "cfg_led_only = \<lparr>DEVICE_NAME_macro = None, EPAPER_SPI_2P13_CS = None, WS2812_DIN = Some 48\<rparr>"

text \<open>The link associates at the second poll; broker up, clock still.\<close>

definition env_slow_wifi :: env where
  "env_slow_wifi = env_of 1 0 0 (\<lambda>i. 0)"

text \<open>Network and broker are up and the clock advances 6000 ms between any two readings.\<close>

definition env_every_6s :: env where
  "env_every_6s = env_of 0 0 0 (\<lambda>i. 6000 * Suc i)"

section \<open>Properties\<close>

text \<open>The external calls, unfolded to what they do to the state.\<close>

lemmas call_defs =
  emit_def Serial_begin_def Serial_print_def Serial_print_int_def Serial_println_def
  delay_def pinMode_def digitalWrite_def WiFi_mode_def WiFi_begin_def WiFi_status_def
  mqtt_setServer_def mqtt_connected_def mqtt_connect_def mqtt_state_def mqtt_publish_def
  mqtt_loop_def millis_def Let_def

subsection \<open>The elapsed-time test\<close>

lemma millis_of_diff:
  assumes "t0 \<le> t1"
  shows "unat (millis_of t1 - millis_of t0) = (t1 - t0) mod 2 ^ 32"
proof -
  have "millis_of t1 - millis_of t0 = (word_of_nat (t1 - t0) :: u32)"
    using assms by (simp add: millis_of_def of_nat_diff)
  then show ?thesis
    by (simp add: unat_of_nat)
qed

lemma heartbeat_due_unat: "heartbeat_due now lst \<longleftrightarrow> 5000 < unat (now - lst)"
  by (simp add: heartbeat_due_def word_less_nat_alt)

subsection \<open>connectWiFi\<close>

lemma connectWiFi_while_returns:
  "(\<forall>j<k. wifi_status_at env (wifi_polls s + j) \<noteq> WL_CONNECTED) \<Longrightarrow>
   wifi_status_at env (wifi_polls s + k) = WL_CONNECTED \<Longrightarrow>
   connectWiFi_while env s =
     Some (s\<lparr>wifi_polls := wifi_polls s + Suc k,
              events := events s @ wifi_wait env (wifi_polls s) k @ [WiFiStatus WL_CONNECTED]\<rparr>)"
proof (induction k arbitrary: s)
  case 0
  then show ?case
    by (subst connectWiFi_while.simps) (simp add: call_defs)
next
  case (Suc k)
  let ?s' = "Serial_print ''.'' (delay 300 (snd (WiFi_status env s)))"
  have first: "wifi_status_at env (wifi_polls s) \<noteq> WL_CONNECTED"
    using Suc.prems(1) by (metis add.right_neutral zero_less_Suc)
  have polls: "wifi_polls ?s' = Suc (wifi_polls s)"
    by (simp add: call_defs)
  have "\<forall>j<k. wifi_status_at env (wifi_polls ?s' + j) \<noteq> WL_CONNECTED"
    using Suc.prems(1) polls by auto
  moreover have "wifi_status_at env (wifi_polls ?s' + k) = WL_CONNECTED"
    using Suc.prems(2) polls by simp
  ultimately have "connectWiFi_while env ?s' =
     Some (?s'\<lparr>wifi_polls := wifi_polls ?s' + Suc k,
              events := events ?s' @ wifi_wait env (wifi_polls ?s') k @ [WiFiStatus WL_CONNECTED]\<rparr>)"
    by (rule Suc.IH)
  moreover have "connectWiFi_while env s = connectWiFi_while env ?s'"
    using first by (subst connectWiFi_while.simps) (simp add: call_defs)
  ultimately show ?case
    by (simp add: call_defs)
qed

lemma connectWiFi_while_Some_connected:
  assumes "connectWiFi_while env s = Some s'"
  shows "\<exists>k. wifi_status_at env (wifi_polls s + k) = WL_CONNECTED"
proof (rule connectWiFi_while.raw_induct
    [where P = "\<lambda>env s s'. \<exists>k. wifi_status_at env (wifi_polls s + k) = WL_CONNECTED",
     OF _ assms])
  fix w env s s'
  assume IH: "\<And>env s s'. w env s = Some s' \<Longrightarrow>
                \<exists>k. wifi_status_at env (wifi_polls s + k) = WL_CONNECTED"
    and body: "(case WiFi_status env s of
                  (st, s1) \<Rightarrow>
                    if st \<noteq> WL_CONNECTED then w env (Serial_print ''.'' (delay 300 s1))
                    else Some s1) = Some s'"
  show "\<exists>k. wifi_status_at env (wifi_polls s + k) = WL_CONNECTED"
  proof (cases "wifi_status_at env (wifi_polls s) = WL_CONNECTED")
    case True
    then show ?thesis by (metis add.right_neutral)
  next
    case False
    with body obtain k where
      "wifi_status_at env (Suc (wifi_polls s) + k) = WL_CONNECTED"
      by (auto simp: call_defs dest!: IH)
    then have "wifi_status_at env (wifi_polls s + Suc k) = WL_CONNECTED"
      by simp
    then show ?thesis by blast
  qed
qed

lemma connectWiFi_returns:
  assumes "\<forall>j<k. wifi_status_at env (wifi_polls s + j) \<noteq> WL_CONNECTED"
    and "wifi_status_at env (wifi_polls s + k) = WL_CONNECTED"
  shows "connectWiFi env s = Some (connectWiFi_result env s k)"
  using assms
  by (simp add: connectWiFi_def connectWiFi_result_def connectWiFi_while_returns call_defs)

lemma connectWiFi_blocks:
  assumes "\<forall>j. wifi_status_at env (wifi_polls s + j) \<noteq> WL_CONNECTED"
  shows "connectWiFi env s = None"
proof (cases "connectWiFi_while env (WiFi_begin WIFI_SSID WIFI_PASS (WiFi_mode WIFI_STA s))")
  case None
  then show ?thesis by (simp add: connectWiFi_def)
next
  case (Some s')
  from connectWiFi_while_Some_connected [OF Some] assms show ?thesis
    by (simp add: call_defs)
qed

lemma connectWiFi_first:
  assumes "wifi_status_at env (wifi_polls s + n) = WL_CONNECTED"
  shows "\<exists>k. connectWiFi env s = Some (connectWiFi_result env s k)"
proof -
  define k where "k = (LEAST i. wifi_status_at env (wifi_polls s + i) = WL_CONNECTED)"
  have hit: "wifi_status_at env (wifi_polls s + k) = WL_CONNECTED"
    unfolding k_def using assms by (rule LeastI)
  have miss: "\<forall>j<k. wifi_status_at env (wifi_polls s + j) \<noteq> WL_CONNECTED"
  proof (intro allI impI)
    fix j assume "j < k"
    then show "wifi_status_at env (wifi_polls s + j) \<noteq> WL_CONNECTED"
      unfolding k_def by (rule not_less_Least)
  qed
  have "connectWiFi env s = Some (connectWiFi_result env s k)"
    using miss hit by (rule connectWiFi_returns)
  then show ?thesis ..
qed

text \<open>
  C7. \<open>connectWiFi\<close> returns if and only if some poll of the link status, from the
  current one on, reports \<open>WL_CONNECTED\<close>. When poll number \<open>k\<close> is the first to do so it
  returns after exactly \<open>k\<close> rounds of a 300 ms delay each. There is no timeout: when no
  poll ever reports \<open>WL_CONNECTED\<close> the call does not return.
\<close>

theorem connectWiFi_returns_iff_connected:
  "(connectWiFi env s \<noteq> None \<longleftrightarrow>
      (\<exists>k. wifi_status_at env (wifi_polls s + k) = WL_CONNECTED)) \<and>
   ((\<forall>j<k. wifi_status_at env (wifi_polls s + j) \<noteq> WL_CONNECTED) \<and>
    wifi_status_at env (wifi_polls s + k) = WL_CONNECTED \<longrightarrow>
      connectWiFi env s = Some (connectWiFi_result env s k)) \<and>
   ((\<forall>j. wifi_status_at env (wifi_polls s + j) \<noteq> WL_CONNECTED) \<longrightarrow>
      connectWiFi env s = None)"
proof (intro conjI impI iffI)
  assume ret: "connectWiFi env s \<noteq> None"
  show "\<exists>k. wifi_status_at env (wifi_polls s + k) = WL_CONNECTED"
  proof (rule ccontr)
    assume "\<not> (\<exists>k. wifi_status_at env (wifi_polls s + k) = WL_CONNECTED)"
    then have "\<forall>j. wifi_status_at env (wifi_polls s + j) \<noteq> WL_CONNECTED"
      by simp
    then have "connectWiFi env s = None"
      by (rule connectWiFi_blocks)
    with ret show False by simp
  qed
next
  assume "\<exists>k. wifi_status_at env (wifi_polls s + k) = WL_CONNECTED"
  then obtain n where "wifi_status_at env (wifi_polls s + n) = WL_CONNECTED" ..
  then obtain k where "connectWiFi env s = Some (connectWiFi_result env s k)"
    using connectWiFi_first by blast
  then show "connectWiFi env s \<noteq> None"
    by simp
next
  assume "(\<forall>j<k. wifi_status_at env (wifi_polls s + j) \<noteq> WL_CONNECTED) \<and>
    wifi_status_at env (wifi_polls s + k) = WL_CONNECTED"
  then show "connectWiFi env s = Some (connectWiFi_result env s k)"
    by (simp add: connectWiFi_returns)
next
  assume "\<forall>j. wifi_status_at env (wifi_polls s + j) \<noteq> WL_CONNECTED"
  then show "connectWiFi env s = None"
    by (rule connectWiFi_blocks)
qed

text \<open>
  A link that associates at the third poll, and an access point that never accepts.
\<close>

theorem connectWiFi_returns_iff_connected_witness:
  "wifi_status_at (env_of 2 0 0 (\<lambda>i. 0)) (wifi_polls boot + 0) \<noteq> WL_CONNECTED \<and>
   wifi_status_at (env_of 2 0 0 (\<lambda>i. 0)) (wifi_polls boot + 1) \<noteq> WL_CONNECTED \<and>
   wifi_status_at (env_of 2 0 0 (\<lambda>i. 0)) (wifi_polls boot + 2) = WL_CONNECTED \<and>
   map_option events (connectWiFi (env_of 2 0 0 (\<lambda>i. 0)) boot) =
     Some [WiFiMode WIFI_STA, WiFiBegin ''YOUR_WIFI'' ''YOUR_PASS'',
           WiFiStatus WL_DISCONNECTED, Delay 300, SerialPrint ''.'',
           WiFiStatus WL_DISCONNECTED, Delay 300, SerialPrint ''.'',
           WiFiStatus WL_CONNECTED, SerialPrintln ''\<newline>WiFi connected''] \<and>
   (\<forall>j. wifi_status_at env_wifi_never (wifi_polls boot + j) \<noteq> WL_CONNECTED) \<and>
   connectWiFi env_wifi_never boot = None"
proof -
  let ?env = "env_of 2 0 0 (\<lambda>i. 0)"
  have a: "\<forall>j<2. wifi_status_at ?env (wifi_polls boot + j) \<noteq> WL_CONNECTED"
    by (simp add: env_of_def boot_def)
  have b: "wifi_status_at ?env (wifi_polls boot + 2) = WL_CONNECTED"
    by (simp add: env_of_def boot_def)
  have c: "\<forall>j. wifi_status_at env_wifi_never (wifi_polls boot + j) \<noteq> WL_CONNECTED"
    by (simp add: env_wifi_never_def)
  have d: "wifi_wait ?env 0 2 =
     [WiFiStatus WL_DISCONNECTED, Delay 300, SerialPrint ''.'',
      WiFiStatus WL_DISCONNECTED, Delay 300, SerialPrint ''.'']"
    by (simp add: env_of_def numeral_2_eq_2)
  from connectWiFi_returns_iff_connected [of ?env boot 2] a b
  have "connectWiFi ?env boot = Some (connectWiFi_result ?env boot 2)"
    by blast
  moreover from connectWiFi_returns_iff_connected [of env_wifi_never boot] c
  have "connectWiFi env_wifi_never boot = None"
    by blast
  moreover have "wifi_status_at ?env (wifi_polls boot + 0) \<noteq> WL_CONNECTED \<and>
    wifi_status_at ?env (wifi_polls boot + 1) \<noteq> WL_CONNECTED"
    by (simp add: env_of_def boot_def)
  ultimately show ?thesis
    using b c d by (simp add: connectWiFi_result_def boot_def WIFI_SSID_def WIFI_PASS_def)
qed

subsection \<open>mqttReconnect\<close>

lemma conn_polls_body [simp]: "conn_polls (mqttReconnect_body cfg env s) = conn_polls s"
  by (simp add: mqttReconnect_body_def call_defs split: prod.splits)

lemma conn_polls_attempts: "conn_polls (attempts k cfg env s) = conn_polls s + k"
  by (induction k arbitrary: s) (simp_all add: call_defs)

lemma mqttReconnect_returns:
  "(\<forall>j<k. \<not> mqtt_connected_at env (conn_polls s + j)) \<Longrightarrow>
   mqtt_connected_at env (conn_polls s + k) \<Longrightarrow>
   mqttReconnect cfg env s = Some (snd (mqtt_connected env (attempts k cfg env s)))"
proof (induction k arbitrary: s)
  case 0
  then show ?case
    by (subst mqttReconnect.simps) (simp add: call_defs)
next
  case (Suc k)
  let ?s' = "mqttReconnect_body cfg env (snd (mqtt_connected env s))"
  have first: "\<not> mqtt_connected_at env (conn_polls s)"
    using Suc.prems(1) by (metis add.right_neutral zero_less_Suc)
  have polls: "conn_polls ?s' = Suc (conn_polls s)"
    by (simp add: call_defs)
  have "\<forall>j<k. \<not> mqtt_connected_at env (conn_polls ?s' + j)"
    using Suc.prems(1) polls by auto
  moreover have "mqtt_connected_at env (conn_polls ?s' + k)"
    using Suc.prems(2) polls by simp
  ultimately have "mqttReconnect cfg env ?s' =
      Some (snd (mqtt_connected env (attempts k cfg env ?s')))"
    by (rule Suc.IH)
  moreover have "mqttReconnect cfg env s = mqttReconnect cfg env ?s'"
    using first by (subst mqttReconnect.simps) (simp add: call_defs)
  ultimately show ?case
    by simp
qed

lemma mqttReconnect_Some_connected:
  assumes "mqttReconnect cfg env s = Some s'"
  shows "\<exists>k. mqtt_connected_at env (conn_polls s + k)"
proof (rule mqttReconnect.raw_induct
    [where P = "\<lambda>cfg env s s'. \<exists>k. mqtt_connected_at env (conn_polls s + k)", OF _ assms])
  fix w cfg env s s'
  assume IH: "\<And>cfg env s s'. w cfg env s = Some s' \<Longrightarrow>
                \<exists>k. mqtt_connected_at env (conn_polls s + k)"
    and body: "(case mqtt_connected env s of
                  (c, s1) \<Rightarrow>
                    if \<not> c then w cfg env (mqttReconnect_body cfg env s1)
                    else Some s1) = Some s'"
  show "\<exists>k. mqtt_connected_at env (conn_polls s + k)"
  proof (cases "mqtt_connected_at env (conn_polls s)")
    case True
    then show ?thesis by (metis add.right_neutral)
  next
    case False
    with body have "w cfg env (mqttReconnect_body cfg env (snd (mqtt_connected env s))) = Some s'"
      by (simp add: call_defs)
    then obtain k where
      "mqtt_connected_at env (conn_polls (mqttReconnect_body cfg env (snd (mqtt_connected env s))) + k)"
      using IH by blast
    then have "mqtt_connected_at env (conn_polls s + Suc k)"
      by (simp add: call_defs)
    then show ?thesis by blast
  qed
qed

lemma mqttReconnect_blocks:
  assumes "\<forall>j. \<not> mqtt_connected_at env (conn_polls s + j)"
  shows "mqttReconnect cfg env s = None"
proof (cases "mqttReconnect cfg env s")
  case None
  then show ?thesis .
next
  case (Some s')
  from mqttReconnect_Some_connected [OF Some] assms show ?thesis
    by simp
qed

lemma mqttReconnect_SomeD:
  assumes "mqttReconnect cfg env s = Some s'"
  shows "\<exists>k. (\<forall>j<k. \<not> mqtt_connected_at env (conn_polls s + j)) \<and>
             mqtt_connected_at env (conn_polls s + k) \<and>
             s' = snd (mqtt_connected env (attempts k cfg env s))"
proof -
  from mqttReconnect_Some_connected [OF assms]
  obtain n where n: "mqtt_connected_at env (conn_polls s + n)" ..
  define k where "k = (LEAST i. mqtt_connected_at env (conn_polls s + i))"
  have hit: "mqtt_connected_at env (conn_polls s + k)"
    unfolding k_def using n by (rule LeastI)
  have miss: "\<forall>j<k. \<not> mqtt_connected_at env (conn_polls s + j)"
  proof (intro allI impI)
    fix j assume "j < k"
    then show "\<not> mqtt_connected_at env (conn_polls s + j)"
      unfolding k_def by (rule not_less_Least)
  qed
  have "mqttReconnect cfg env s = Some (snd (mqtt_connected env (attempts k cfg env s)))"
    using miss hit by (rule mqttReconnect_returns)
  with assms have "s' = snd (mqtt_connected env (attempts k cfg env s))"
    by simp
  with miss hit show ?thesis by blast
qed


subsection \<open>What a round of the loop leaves unchanged, and what it logs\<close>

lemma new_events_append: "events s' = events s @ new \<Longrightarrow> new_events s s' = new"
  by (simp add: new_events_def)

lemma body_frame:
  "last_ms (mqttReconnect_body cfg env s) = last_ms s"
  "millis_calls (mqttReconnect_body cfg env s) = millis_calls s"
  "wifi_polls (mqttReconnect_body cfg env s) = wifi_polls s"
  by (simp_all add: mqttReconnect_body_def call_defs split: prod.splits)

lemma body_log:
  "\<exists>new. events (mqttReconnect_body cfg env s) = events s @ new \<and>
         list_all (reconnect_event cfg) new \<and>
         length (filter is_status new) = length (filter is_connect_ok new)"
  by (simp add: mqttReconnect_body_def call_defs)

lemma attempts_frame:
  "last_ms (attempts k cfg env s) = last_ms s \<and>
   millis_calls (attempts k cfg env s) = millis_calls s \<and>
   wifi_polls (attempts k cfg env s) = wifi_polls s"
  by (induction k arbitrary: s) (simp_all add: body_frame, simp add: call_defs)

lemma attempts_log:
  "\<exists>new. events (attempts k cfg env s) = events s @ new \<and>
         list_all (reconnect_event cfg) new \<and>
         length (filter is_status new) = length (filter is_connect_ok new)"
proof (induction k arbitrary: s)
  case 0
  show ?case by simp
next
  case (Suc k)
  let ?s1 = "snd (mqtt_connected env s)"
  let ?s2 = "mqttReconnect_body cfg env ?s1"
  obtain b where b: "events ?s2 = events ?s1 @ b" "list_all (reconnect_event cfg) b"
    "length (filter is_status b) = length (filter is_connect_ok b)"
    using body_log [of cfg env ?s1] by blast
  obtain r where r: "events (attempts k cfg env ?s2) = events ?s2 @ r"
    "list_all (reconnect_event cfg) r"
    "length (filter is_status r) = length (filter is_connect_ok r)"
    using Suc.IH [of ?s2] by blast
  have p: "events ?s1 = events s @ [MqttConnected (mqtt_connected_at env (conn_polls s))]"
    by (simp add: call_defs)
  let ?new = "MqttConnected (mqtt_connected_at env (conn_polls s)) # b @ r"
  have "events (attempts (Suc k) cfg env s) = events s @ ?new"
    using b(1) r(1) p by simp
  moreover have "list_all (reconnect_event cfg) ?new"
    using b(2) r(2) by simp
  moreover have "length (filter is_status ?new) = length (filter is_connect_ok ?new)"
    using b(3) r(3) by simp
  ultimately show ?case by blast
qed

lemma mqttReconnect_frame:
  assumes "mqttReconnect cfg env s = Some s'"
  shows "last_ms s' = last_ms s" "millis_calls s' = millis_calls s" "wifi_polls s' = wifi_polls s"
proof -
  from mqttReconnect_SomeD [OF assms] obtain k where
    "s' = snd (mqtt_connected env (attempts k cfg env s))" by blast
  then show "last_ms s' = last_ms s" "millis_calls s' = millis_calls s"
    "wifi_polls s' = wifi_polls s"
    by (simp_all add: call_defs attempts_frame)
qed

lemma mqttReconnect_log:
  assumes "mqttReconnect cfg env s = Some s'"
  shows "\<exists>new. events s' = events s @ new \<and>
         list_all (reconnect_event cfg) new \<and>
         length (filter is_status new) = length (filter is_connect_ok new)"
proof -
  from mqttReconnect_SomeD [OF assms] obtain k where
    s': "s' = snd (mqtt_connected env (attempts k cfg env s))" by blast
  obtain r where r: "events (attempts k cfg env s) = events s @ r"
    "list_all (reconnect_event cfg) r"
    "length (filter is_status r) = length (filter is_connect_ok r)"
    using attempts_log [of k cfg env s] by blast
  let ?new = "r @ [MqttConnected (mqtt_connected_at env (conn_polls (attempts k cfg env s)))]"
  have "events s' = events s @ ?new"
    using s' r(1) by (simp add: call_defs)
  moreover have "list_all (reconnect_event cfg) ?new"
    using r(2) by simp
  moreover have "length (filter is_status ?new) = length (filter is_connect_ok ?new)"
    using r(3) by simp
  ultimately show ?thesis by blast
qed

text \<open>One delay of 2000 ms for every connect that fails.\<close>

lemma body_delays:
  "\<exists>new. events (mqttReconnect_body cfg env s) = events s @ new \<and>
         length (filter (\<lambda>e. e = Delay 2000) new) = length (filter is_connect_failed new)"
  by (simp add: mqttReconnect_body_def call_defs)

lemma attempts_delays:
  "\<exists>new. events (attempts k cfg env s) = events s @ new \<and>
         length (filter (\<lambda>e. e = Delay 2000) new) = length (filter is_connect_failed new)"
proof (induction k arbitrary: s)
  case 0
  show ?case by simp
next
  case (Suc k)
  let ?s1 = "snd (mqtt_connected env s)"
  let ?s2 = "mqttReconnect_body cfg env ?s1"
  obtain b where b: "events ?s2 = events ?s1 @ b"
    "length (filter (\<lambda>e. e = Delay 2000) b) = length (filter is_connect_failed b)"
    using body_delays [of cfg env ?s1] by blast
  obtain r where r: "events (attempts k cfg env ?s2) = events ?s2 @ r"
    "length (filter (\<lambda>e. e = Delay 2000) r) = length (filter is_connect_failed r)"
    using Suc.IH [of ?s2] by blast
  have p: "events ?s1 = events s @ [MqttConnected (mqtt_connected_at env (conn_polls s))]"
    by (simp add: call_defs)
  let ?new = "MqttConnected (mqtt_connected_at env (conn_polls s)) # b @ r"
  have "events (attempts (Suc k) cfg env s) = events s @ ?new"
    using b(1) r(1) p by simp
  moreover have "length (filter (\<lambda>e. e = Delay 2000) ?new) =
      length (filter is_connect_failed ?new)"
    using b(2) r(2) by simp
  ultimately show ?case by blast
qed

lemma mqttReconnect_delays:
  assumes "mqttReconnect cfg env s = Some s'"
  shows "length (filter (\<lambda>e. e = Delay 2000) (new_events s s')) =
         length (filter is_connect_failed (new_events s s'))"
proof -
  from mqttReconnect_SomeD [OF assms] obtain k where
    s': "s' = snd (mqtt_connected env (attempts k cfg env s))" by blast
  obtain r where r: "events (attempts k cfg env s) = events s @ r"
    "length (filter (\<lambda>e. e = Delay 2000) r) = length (filter is_connect_failed r)"
    using attempts_delays [of k cfg env s] by blast
  let ?new = "r @ [MqttConnected (mqtt_connected_at env (conn_polls (attempts k cfg env s)))]"
  have "events s' = events s @ ?new"
    using s' r(1) by (simp add: call_defs)
  then have "new_events s s' = ?new"
    by (rule new_events_append)
  then show ?thesis
    using r(2) by simp
qed

lemma mqttReconnect_new_events:
  assumes "mqttReconnect cfg env s = Some s'"
  shows "list_all (reconnect_event cfg) (new_events s s')"
    and "length (filter is_status (new_events s s')) =
         length (filter is_connect_ok (new_events s s'))"
proof -
  from mqttReconnect_log [OF assms] obtain new where
    new: "events s' = events s @ new" "list_all (reconnect_event cfg) new"
    "length (filter is_status new) = length (filter is_connect_ok new)"
    by blast
  from new(1) have "new_events s s' = new"
    by (rule new_events_append)
  with new(2,3) show "list_all (reconnect_event cfg) (new_events s s')"
    and "length (filter is_status (new_events s s')) =
         length (filter is_connect_ok (new_events s s'))"
    by simp_all
qed

subsection \<open>Failed attempts, then a successful one\<close>

lemma attempts_add:
  "attempts (a + b) cfg env s = attempts b cfg env (attempts a cfg env s)"
  by (induction a arbitrary: s) simp_all

lemma attempts_failed:
  "(\<forall>j<n. \<not> mqtt_connected_at env (conn_polls s + j)) \<Longrightarrow>
   (\<forall>j<n. \<not> mqtt_connect_at env (connect_calls s + j)) \<Longrightarrow>
   attempts n cfg env s =
     s\<lparr>conn_polls := conn_polls s + n, connect_calls := connect_calls s + n,
       state_calls := state_calls s + n,
       events := events s @ failed_attempts cfg env (state_calls s) n\<rparr>"
proof (induction n arbitrary: s)
  case 0
  show ?case by simp
next
  case (Suc n)
  let ?s' = "mqttReconnect_body cfg env (snd (mqtt_connected env s))"
  have c0: "\<not> mqtt_connected_at env (conn_polls s)"
    using Suc.prems(1) by (metis add.right_neutral zero_less_Suc)
  have k0: "\<not> mqtt_connect_at env (connect_calls s)"
    using Suc.prems(2) by (metis add.right_neutral zero_less_Suc)
  have s': "?s' = s\<lparr>conn_polls := Suc (conn_polls s), connect_calls := Suc (connect_calls s),
       state_calls := Suc (state_calls s),
       events := events s @ failed_attempts cfg env (state_calls s) 1\<rparr>"
    using c0 k0 by (simp add: mqttReconnect_body_def call_defs)
  have "\<forall>j<n. \<not> mqtt_connected_at env (conn_polls ?s' + j)"
    using Suc.prems(1) by (auto simp: s')
  moreover have "\<forall>j<n. \<not> mqtt_connect_at env (connect_calls ?s' + j)"
    using Suc.prems(2) by (auto simp: s')
  ultimately have "attempts n cfg env ?s' =
     ?s'\<lparr>conn_polls := conn_polls ?s' + n, connect_calls := connect_calls ?s' + n,
       state_calls := state_calls ?s' + n,
       events := events ?s' @ failed_attempts cfg env (state_calls ?s') n\<rparr>"
    by (rule Suc.IH)
  then show ?case
    by (simp add: s')
qed

lemma mqttReconnect_after_failures:
  assumes down: "\<forall>j\<le>n. \<not> mqtt_connected_at env (conn_polls s + j)"
    and up: "mqtt_connected_at env (conn_polls s + Suc n)"
    and fails: "\<forall>j<n. \<not> mqtt_connect_at env (connect_calls s + j)"
    and ok: "mqtt_connect_at env (connect_calls s + n)"
  shows "mqttReconnect cfg env s =
     Some (s\<lparr>conn_polls := conn_polls s + n + 2, connect_calls := connect_calls s + n + 1,
       state_calls := state_calls s + n,
       events := events s @ failed_attempts cfg env (state_calls s) n @
                 successful_attempt cfg\<rparr>)"
proof -
  have "\<forall>j<Suc n. \<not> mqtt_connected_at env (conn_polls s + j)"
    using down by (simp add: less_Suc_eq_le)
  then have "mqttReconnect cfg env s =
      Some (snd (mqtt_connected env (attempts (Suc n) cfg env s)))"
    using up by (rule mqttReconnect_returns)
  moreover have "attempts (Suc n) cfg env s = attempts 1 cfg env (attempts n cfg env s)"
    using attempts_add [of n 1 cfg env s] by simp
  moreover have "attempts n cfg env s =
     s\<lparr>conn_polls := conn_polls s + n, connect_calls := connect_calls s + n,
       state_calls := state_calls s + n,
       events := events s @ failed_attempts cfg env (state_calls s) n\<rparr>"
    using down fails by (intro attempts_failed) simp_all
  ultimately show ?thesis
    using down up ok
    by (simp add: mqttReconnect_body_def call_defs successful_attempt_def)
qed

subsection \<open>Any number of rounds, whatever the connects answer\<close>

lemma attempts_rounds:
  "(\<forall>j<k. \<not> mqtt_connected_at env (conn_polls s + j)) \<Longrightarrow>
   attempts k cfg env s =
     s\<lparr>conn_polls := conn_polls s + k, connect_calls := connect_calls s + k,
       state_calls := state_calls s + failures env (connect_calls s) k,
       events := events s @ rounds cfg env (connect_calls s) (state_calls s) k\<rparr>"
proof (induction k arbitrary: s)
  case 0
  show ?case by simp
next
  case (Suc k)
  let ?s' = "mqttReconnect_body cfg env (snd (mqtt_connected env s))"
  have c0: "\<not> mqtt_connected_at env (conn_polls s)"
    using Suc.prems by (metis add.right_neutral zero_less_Suc)
  have s': "?s' = s\<lparr>conn_polls := Suc (conn_polls s), connect_calls := Suc (connect_calls s),
       state_calls := state_calls s + failures env (connect_calls s) 1,
       events := events s @ rounds cfg env (connect_calls s) (state_calls s) 1\<rparr>"
    using c0 by (simp add: mqttReconnect_body_def call_defs)
  have "\<forall>j<k. \<not> mqtt_connected_at env (conn_polls ?s' + j)"
    using Suc.prems by (auto simp: s')
  then have "attempts k cfg env ?s' =
     ?s'\<lparr>conn_polls := conn_polls ?s' + k, connect_calls := connect_calls ?s' + k,
       state_calls := state_calls ?s' + failures env (connect_calls ?s') k,
       events := events ?s' @ rounds cfg env (connect_calls ?s') (state_calls ?s') k\<rparr>"
    by (rule Suc.IH)
  then show ?case
    by (simp add: s')
qed

lemma mqttReconnect_rounds:
  assumes down: "\<forall>j<k. \<not> mqtt_connected_at env (conn_polls s + j)"
    and up: "mqtt_connected_at env (conn_polls s + k)"
  shows "mqttReconnect cfg env s =
     Some (s\<lparr>conn_polls := conn_polls s + Suc k, connect_calls := connect_calls s + k,
       state_calls := state_calls s + failures env (connect_calls s) k,
       events := events s @ rounds cfg env (connect_calls s) (state_calls s) k @
                 [MqttConnected True]\<rparr>)"
proof -
  have "mqttReconnect cfg env s = Some (snd (mqtt_connected env (attempts k cfg env s)))"
    using down up by (rule mqttReconnect_returns)
  then show ?thesis
    using up by (simp add: attempts_rounds [OF down] call_defs)
qed

lemma mqttReconnect_first:
  assumes "mqtt_connected_at env (conn_polls s + n)"
  shows "mqttReconnect cfg env s \<noteq> None"
proof -
  define k where "k = (LEAST i. mqtt_connected_at env (conn_polls s + i))"
  have hit: "mqtt_connected_at env (conn_polls s + k)"
    unfolding k_def using assms by (rule LeastI)
  have miss: "\<forall>j<k. \<not> mqtt_connected_at env (conn_polls s + j)"
  proof (intro allI impI)
    fix j assume "j < k"
    then show "\<not> mqtt_connected_at env (conn_polls s + j)"
      unfolding k_def by (rule not_less_Least)
  qed
  have "mqttReconnect cfg env s = Some (snd (mqtt_connected env (attempts k cfg env s)))"
    using miss hit by (rule mqttReconnect_returns)
  then show ?thesis by simp
qed

lemma mqttReconnect_returns_iff:
  "mqttReconnect cfg env s \<noteq> None \<longleftrightarrow> (\<exists>k. mqtt_connected_at env (conn_polls s + k))"
proof
  assume "mqttReconnect cfg env s \<noteq> None"
  then obtain s' where "mqttReconnect cfg env s = Some s'" by auto
  then show "\<exists>k. mqtt_connected_at env (conn_polls s + k)"
    by (rule mqttReconnect_Some_connected)
next
  assume "\<exists>k. mqtt_connected_at env (conn_polls s + k)"
  then obtain n where "mqtt_connected_at env (conn_polls s + n)" ..
  then show "mqttReconnect cfg env s \<noteq> None"
    by (rule mqttReconnect_first)
qed

lemma rounds_publishes:
  "filter is_publish (rounds cfg env c d k) =
     replicate (successes env c k) (MqttPublish ''pinpilot/status'' ''online'')"
  by (induction k arbitrary: c d) simp_all

lemma rounds_delays:
  "filter (\<lambda>e. e = Delay 2000) (rounds cfg env c d k) =
     replicate (failures env c k) (Delay 2000)"
  by (induction k arbitrary: c d) simp_all

lemma successes_failures: "successes env c k + failures env c k = k"
  by (induction k arbitrary: c) simp_all

lemma failed_attempts_publishes: "filter is_publish (failed_attempts cfg env c n) = []"
  by (induction n arbitrary: c) simp_all

lemma failed_attempts_delays:
  "filter (\<lambda>e. e = Delay 2000) (failed_attempts cfg env c n) = replicate n (Delay 2000)"
  by (induction n arbitrary: c) simp_all

text \<open>
  C2, as the code has it. The loop of \<open>mqttReconnect\<close> has no exit after the publish: it
  ends at the first poll of \<open>mqtt.connected()\<close> that reports connected, and only there.
  So the call returns if and only if some poll reports connected, and when poll number
  \<open>k\<close> is the first to do so its log is \<open>k\<close> rounds and that poll. Every round connects
  with the device name as client identifier; a round whose connect succeeds publishes
  \<open>online\<close> to \<open>pinpilot/status\<close> once, a round whose connect fails waits 2000 ms, so the
  log holds one publish for every connect that succeeded and one delay for every connect
  that failed. When the client reports disconnected until a connect succeeds and
  connected right after, and the first \<open>n\<close> connects fail, that is \<open>n\<close> failed rounds and
  one publish of \<open>online\<close>. All of this holds for every \<open>k\<close> and \<open>n\<close>: there is no bound on
  the retries, and when the client never reports connected the call does not return.
\<close>

theorem mqttReconnect_retries_until_connected:
  "(mqttReconnect cfg env s \<noteq> None \<longleftrightarrow> (\<exists>k. mqtt_connected_at env (conn_polls s + k))) \<and>
   ((\<forall>j<k. \<not> mqtt_connected_at env (conn_polls s + j)) \<and>
    mqtt_connected_at env (conn_polls s + k) \<longrightarrow>
      mqttReconnect cfg env s =
        Some (s\<lparr>conn_polls := conn_polls s + Suc k, connect_calls := connect_calls s + k,
          state_calls := state_calls s + failures env (connect_calls s) k,
          events := events s @ rounds cfg env (connect_calls s) (state_calls s) k @
                    [MqttConnected True]\<rparr>) \<and>
      filter is_publish (rounds cfg env (connect_calls s) (state_calls s) k) =
        replicate (successes env (connect_calls s) k)
          (MqttPublish ''pinpilot/status'' ''online'') \<and>
      filter (\<lambda>e. e = Delay 2000) (rounds cfg env (connect_calls s) (state_calls s) k) =
        replicate (failures env (connect_calls s) k) (Delay 2000) \<and>
      successes env (connect_calls s) k + failures env (connect_calls s) k = k) \<and>
   ((\<forall>j\<le>n. \<not> mqtt_connected_at env (conn_polls s + j)) \<and>
    mqtt_connected_at env (conn_polls s + Suc n) \<and>
    (\<forall>j<n. \<not> mqtt_connect_at env (connect_calls s + j)) \<and>
    mqtt_connect_at env (connect_calls s + n) \<longrightarrow>
      mqttReconnect cfg env s =
        Some (s\<lparr>conn_polls := conn_polls s + n + 2, connect_calls := connect_calls s + n + 1,
          state_calls := state_calls s + n,
          events := events s @ failed_attempts cfg env (state_calls s) n @
                    successful_attempt cfg\<rparr>) \<and>
      filter is_publish (failed_attempts cfg env (state_calls s) n @ successful_attempt cfg) =
        [MqttPublish ''pinpilot/status'' ''online''] \<and>
      filter (\<lambda>e. e = Delay 2000)
          (failed_attempts cfg env (state_calls s) n @ successful_attempt cfg) =
        replicate n (Delay 2000)) \<and>
   ((\<forall>j. \<not> mqtt_connected_at env (conn_polls s + j)) \<longrightarrow> mqttReconnect cfg env s = None) \<and>
   (mqttReconnect cfg env s = Some s' \<longrightarrow>
      list_all (reconnect_event cfg) (new_events s s') \<and>
      length (filter is_status (new_events s s')) =
        length (filter is_connect_ok (new_events s s')) \<and>
      length (filter (\<lambda>e. e = Delay 2000) (new_events s s')) =
        length (filter is_connect_failed (new_events s s')))"
proof (intro conjI impI)
  show "mqttReconnect cfg env s \<noteq> None \<longleftrightarrow>
      (\<exists>k. mqtt_connected_at env (conn_polls s + k))"
    by (rule mqttReconnect_returns_iff)
next
  assume "(\<forall>j<k. \<not> mqtt_connected_at env (conn_polls s + j)) \<and>
    mqtt_connected_at env (conn_polls s + k)"
  then show "mqttReconnect cfg env s =
        Some (s\<lparr>conn_polls := conn_polls s + Suc k, connect_calls := connect_calls s + k,
          state_calls := state_calls s + failures env (connect_calls s) k,
          events := events s @ rounds cfg env (connect_calls s) (state_calls s) k @
                    [MqttConnected True]\<rparr>)"
    by (intro mqttReconnect_rounds) simp_all
  show "filter is_publish (rounds cfg env (connect_calls s) (state_calls s) k) =
        replicate (successes env (connect_calls s) k)
          (MqttPublish ''pinpilot/status'' ''online'')"
    by (rule rounds_publishes)
  show "filter (\<lambda>e. e = Delay 2000) (rounds cfg env (connect_calls s) (state_calls s) k) =
        replicate (failures env (connect_calls s) k) (Delay 2000)"
    by (rule rounds_delays)
  show "successes env (connect_calls s) k + failures env (connect_calls s) k = k"
    by (rule successes_failures)
next
  assume h: "(\<forall>j\<le>n. \<not> mqtt_connected_at env (conn_polls s + j)) \<and>
    mqtt_connected_at env (conn_polls s + Suc n) \<and>
    (\<forall>j<n. \<not> mqtt_connect_at env (connect_calls s + j)) \<and>
    mqtt_connect_at env (connect_calls s + n)"
  then show "mqttReconnect cfg env s =
        Some (s\<lparr>conn_polls := conn_polls s + n + 2, connect_calls := connect_calls s + n + 1,
          state_calls := state_calls s + n,
          events := events s @ failed_attempts cfg env (state_calls s) n @
                    successful_attempt cfg\<rparr>)"
    by (intro mqttReconnect_after_failures) simp_all
  show "filter is_publish (failed_attempts cfg env (state_calls s) n @ successful_attempt cfg) =
        [MqttPublish ''pinpilot/status'' ''online'']"
    by (simp add: failed_attempts_publishes successful_attempt_def)
  show "filter (\<lambda>e. e = Delay 2000)
          (failed_attempts cfg env (state_calls s) n @ successful_attempt cfg) =
        replicate n (Delay 2000)"
    by (simp add: failed_attempts_delays successful_attempt_def)
next
  assume "\<forall>j. \<not> mqtt_connected_at env (conn_polls s + j)"
  then show "mqttReconnect cfg env s = None"
    by (rule mqttReconnect_blocks)
next
  assume r: "mqttReconnect cfg env s = Some s'"
  show "list_all (reconnect_event cfg) (new_events s s')"
    and "length (filter is_status (new_events s s')) =
        length (filter is_connect_ok (new_events s s'))"
    using mqttReconnect_new_events [OF r] by simp_all
  show "length (filter (\<lambda>e. e = Delay 2000) (new_events s s')) =
        length (filter is_connect_failed (new_events s s'))"
    using r by (rule mqttReconnect_delays)
qed

text \<open>
  C2 as stated has the call return after one publish of \<open>online\<close>. Here the first connect
  succeeds and the client still reports disconnected at the next poll: the call goes
  round again, and has published \<open>online\<close> twice when it returns.
\<close>

theorem mqttReconnect_two_online:
  "mqtt_connect_at (env_dropped 0) (connect_calls boot) \<and>
   mqttReconnect cfg_default (env_dropped 0) boot =
     Some \<lparr>last_ms = 0,
           events = [MqttConnected False, SerialPrint ''MQTT connecting...'',
                     MqttConnect ''pinpilot_device'' True, SerialPrintln ''connected'',
                     MqttPublish ''pinpilot/status'' ''online'',
                     MqttConnected False, SerialPrint ''MQTT connecting...'',
                     MqttConnect ''pinpilot_device'' True, SerialPrintln ''connected'',
                     MqttPublish ''pinpilot/status'' ''online'',
                     MqttConnected True],
           wifi_polls = 0, conn_polls = 3, connect_calls = 2, state_calls = 0,
           millis_calls = 0\<rparr>"
proof -
  let ?env = "env_dropped 0"
  have "mqttReconnect cfg_default ?env boot =
     Some (boot\<lparr>conn_polls := conn_polls boot + Suc 2, connect_calls := connect_calls boot + 2,
       state_calls := state_calls boot + failures ?env (connect_calls boot) 2,
       events := events boot @ rounds cfg_default ?env (connect_calls boot) (state_calls boot) 2 @
                 [MqttConnected True]\<rparr>)"
    by (rule mqttReconnect_rounds) (simp_all add: env_dropped_def env_of_def boot_def)
  moreover have "mqtt_connect_at ?env (connect_calls boot)"
    by (simp add: env_dropped_def env_of_def)
  ultimately show ?thesis
    by (simp add: boot_def env_dropped_def env_of_def numeral_2_eq_2 cfg_default_def
        DEVICE_NAME_def)
qed

text \<open>
  Two failed connects and a successful one; a broker that is never there; and the client
  that still reports disconnected after the first successful connect.
\<close>

theorem mqttReconnect_retries_until_connected_witness:
  "\<not> mqtt_connected_at (env_of 0 3 2 (\<lambda>i. 0)) (conn_polls boot + 0) \<and>
   \<not> mqtt_connected_at (env_of 0 3 2 (\<lambda>i. 0)) (conn_polls boot + 1) \<and>
   \<not> mqtt_connected_at (env_of 0 3 2 (\<lambda>i. 0)) (conn_polls boot + 2) \<and>
   mqtt_connected_at (env_of 0 3 2 (\<lambda>i. 0)) (conn_polls boot + Suc 2) \<and>
   \<not> mqtt_connect_at (env_of 0 3 2 (\<lambda>i. 0)) (connect_calls boot + 0) \<and>
   \<not> mqtt_connect_at (env_of 0 3 2 (\<lambda>i. 0)) (connect_calls boot + 1) \<and>
   mqtt_connect_at (env_of 0 3 2 (\<lambda>i. 0)) (connect_calls boot + 2) \<and>
   map_option events (mqttReconnect cfg_default (env_of 0 3 2 (\<lambda>i. 0)) boot) =
     Some [MqttConnected False, SerialPrint ''MQTT connecting...'',
           MqttConnect ''pinpilot_device'' False, SerialPrint ''failed rc='',
           MqttState (- 2), SerialPrintInt (- 2), SerialPrintln '' retry in 2s'', Delay 2000,
           MqttConnected False, SerialPrint ''MQTT connecting...'',
           MqttConnect ''pinpilot_device'' False, SerialPrint ''failed rc='',
           MqttState (- 2), SerialPrintInt (- 2), SerialPrintln '' retry in 2s'', Delay 2000,
           MqttConnected False, SerialPrint ''MQTT connecting...'',
           MqttConnect ''pinpilot_device'' True, SerialPrintln ''connected'',
           MqttPublish ''pinpilot/status'' ''online'', MqttConnected True] \<and>
   (\<forall>j. \<not> mqtt_connected_at env_broker_never (conn_polls boot + j)) \<and>
   mqttReconnect cfg_default env_broker_never boot = None \<and>
   \<not> mqtt_connected_at (env_dropped 0) (conn_polls boot + 0) \<and>
   \<not> mqtt_connected_at (env_dropped 0) (conn_polls boot + 1) \<and>
   mqtt_connected_at (env_dropped 0) (conn_polls boot + 2) \<and>
   successes (env_dropped 0) (connect_calls boot) 2 = 2 \<and>
   filter is_publish (rounds cfg_default (env_dropped 0) (connect_calls boot) (state_calls boot) 2) =
     [MqttPublish ''pinpilot/status'' ''online'', MqttPublish ''pinpilot/status'' ''online'']"
proof -
  let ?env = "env_of 0 3 2 (\<lambda>i. 0)"
  have d: "(\<forall>j<2. \<not> mqtt_connected_at (env_dropped 0) (conn_polls boot + j)) \<and>
    mqtt_connected_at (env_dropped 0) (conn_polls boot + 2)"
    by (simp add: env_dropped_def env_of_def boot_def)
  have e: "successes (env_dropped 0) (connect_calls boot) 2 = 2"
    by (simp add: env_dropped_def env_of_def numeral_2_eq_2)
  from mqttReconnect_retries_until_connected
      [where k = 2 and env = "env_dropped 0" and s = boot and cfg = cfg_default] d
  have "filter is_publish
      (rounds cfg_default (env_dropped 0) (connect_calls boot) (state_calls boot) 2) =
    replicate (successes (env_dropped 0) (connect_calls boot) 2)
      (MqttPublish ''pinpilot/status'' ''online'')"
    by blast
  then have f: "filter is_publish
      (rounds cfg_default (env_dropped 0) (connect_calls boot) (state_calls boot) 2) =
    [MqttPublish ''pinpilot/status'' ''online'', MqttPublish ''pinpilot/status'' ''online'']"
    unfolding e by (simp add: numeral_2_eq_2)
  have g: "\<not> mqtt_connected_at (env_dropped 0) (conn_polls boot + 0) \<and>
    \<not> mqtt_connected_at (env_dropped 0) (conn_polls boot + 1) \<and>
    mqtt_connected_at (env_dropped 0) (conn_polls boot + 2)"
    by (simp add: env_dropped_def env_of_def boot_def)
  have a: "(\<forall>j\<le>2. \<not> mqtt_connected_at ?env (conn_polls boot + j)) \<and>
    mqtt_connected_at ?env (conn_polls boot + Suc 2) \<and>
    (\<forall>j<2. \<not> mqtt_connect_at ?env (connect_calls boot + j)) \<and>
    mqtt_connect_at ?env (connect_calls boot + 2)"
    by (simp add: env_of_def boot_def)
  have b: "\<forall>j. \<not> mqtt_connected_at env_broker_never (conn_polls boot + j)"
    by (simp add: env_broker_never_def)
  have c: "failed_attempts cfg_default ?env 0 2 =
     [MqttConnected False, SerialPrint ''MQTT connecting...'',
      MqttConnect ''pinpilot_device'' False, SerialPrint ''failed rc='',
      MqttState (- 2), SerialPrintInt (- 2), SerialPrintln '' retry in 2s'', Delay 2000,
      MqttConnected False, SerialPrint ''MQTT connecting...'',
      MqttConnect ''pinpilot_device'' False, SerialPrint ''failed rc='',
      MqttState (- 2), SerialPrintInt (- 2), SerialPrintln '' retry in 2s'', Delay 2000]"
    by (simp add: env_of_def cfg_default_def DEVICE_NAME_def numeral_2_eq_2)
  from mqttReconnect_retries_until_connected [where n = 2 and env = ?env and s = boot and cfg = cfg_default] a
  have "mqttReconnect cfg_default ?env boot =
        Some (boot\<lparr>conn_polls := conn_polls boot + 2 + 2,
          connect_calls := connect_calls boot + 2 + 1,
          state_calls := state_calls boot + 2,
          events := events boot @ failed_attempts cfg_default ?env (state_calls boot) 2 @
                    successful_attempt cfg_default\<rparr>)"
    by blast
  moreover from mqttReconnect_retries_until_connected
      [where env = env_broker_never and s = boot and cfg = cfg_default] b
  have "mqttReconnect cfg_default env_broker_never boot = None"
    by blast
  moreover have "\<not> mqtt_connected_at ?env (conn_polls boot + 0) \<and>
    \<not> mqtt_connected_at ?env (conn_polls boot + 1) \<and>
    \<not> mqtt_connected_at ?env (conn_polls boot + 2) \<and>
    \<not> mqtt_connect_at ?env (connect_calls boot + 0) \<and>
    \<not> mqtt_connect_at ?env (connect_calls boot + 1)"
    by (simp add: env_of_def boot_def)
  ultimately have "map_option events (mqttReconnect cfg_default ?env boot) =
     Some [MqttConnected False, SerialPrint ''MQTT connecting...'',
           MqttConnect ''pinpilot_device'' False, SerialPrint ''failed rc='',
           MqttState (- 2), SerialPrintInt (- 2), SerialPrintln '' retry in 2s'', Delay 2000,
           MqttConnected False, SerialPrint ''MQTT connecting...'',
           MqttConnect ''pinpilot_device'' False, SerialPrint ''failed rc='',
           MqttState (- 2), SerialPrintInt (- 2), SerialPrintln '' retry in 2s'', Delay 2000,
           MqttConnected False, SerialPrint ''MQTT connecting...'',
           MqttConnect ''pinpilot_device'' True, SerialPrintln ''connected'',
           MqttPublish ''pinpilot/status'' ''online'', MqttConnected True]"
    and "mqttReconnect cfg_default env_broker_never boot = None"
    and "\<not> mqtt_connected_at ?env (conn_polls boot + 0) \<and>
    \<not> mqtt_connected_at ?env (conn_polls boot + 1) \<and>
    \<not> mqtt_connected_at ?env (conn_polls boot + 2) \<and>
    \<not> mqtt_connect_at ?env (connect_calls boot + 0) \<and>
    \<not> mqtt_connect_at ?env (connect_calls boot + 1)"
    using c by (simp_all add: boot_def successful_attempt_def cfg_default_def DEVICE_NAME_def)
  with a b e f g show ?thesis
    by simp
qed

subsection \<open>loop\<close>

lemma reconnect_event_quiet:
  assumes "reconnect_event cfg e"
  shows "\<not> is_heartbeat e" "\<not> is_millis e" "e \<noteq> MqttLoop" "\<not> is_pin_op e"
    "is_publish e \<Longrightarrow> e = MqttPublish ''pinpilot/status'' ''online''"
  using assms by (cases e; simp)+

lemma reconnect_log_filters:
  assumes "list_all (reconnect_event cfg) new"
  shows "filter is_heartbeat new = []" "filter is_millis new = []"
    "filter (\<lambda>e. e = MqttLoop) new = []"
  using assms by (auto simp: filter_empty_conv list_all_iff dest: reconnect_event_quiet)

lemma loop_eq: "loop cfg env s = map_option (loop_rest cfg env) (loop_connect cfg env s)"
  by (simp add: loop_def loop_connect_def loop_rest_def call_defs split: option.splits)

lemma loop_connect_connected:
  "mqtt_connected_at env (conn_polls s) \<Longrightarrow>
   loop_connect cfg env s =
     Some (s\<lparr>conn_polls := Suc (conn_polls s), events := events s @ [MqttConnected True]\<rparr>)"
  by (simp add: loop_connect_def call_defs)

lemma loop_connect_disconnected:
  "\<not> mqtt_connected_at env (conn_polls s) \<Longrightarrow>
   loop_connect cfg env s = mqttReconnect cfg env (snd (mqtt_connected env s))"
  by (simp add: loop_connect_def call_defs)

lemma loop_connect_frame:
  assumes "loop_connect cfg env s = Some s2"
  shows "last_ms s2 = last_ms s" "millis_calls s2 = millis_calls s" "wifi_polls s2 = wifi_polls s"
proof -
  have "last_ms s2 = last_ms s \<and> millis_calls s2 = millis_calls s \<and> wifi_polls s2 = wifi_polls s"
  proof (cases "mqtt_connected_at env (conn_polls s)")
    case True
    with assms show ?thesis by (auto simp: loop_connect_connected)
  next
    case False
    with assms have "mqttReconnect cfg env (snd (mqtt_connected env s)) = Some s2"
      by (simp add: loop_connect_disconnected)
    from mqttReconnect_frame [OF this] show ?thesis
      by (simp add: call_defs)
  qed
  then show "last_ms s2 = last_ms s" "millis_calls s2 = millis_calls s"
    "wifi_polls s2 = wifi_polls s"
    by simp_all
qed

lemma loop_connect_log:
  assumes "loop_connect cfg env s = Some s2"
  shows "\<exists>new. events s2 = events s @ new \<and>
         list_all (reconnect_event cfg) new \<and>
         length (filter is_status new) = length (filter is_connect_ok new)"
proof (cases "mqtt_connected_at env (conn_polls s)")
  case True
  with assms have "events s2 = events s @ [MqttConnected True]"
    by (auto simp: loop_connect_connected)
  then show ?thesis by simp
next
  case False
  with assms have "mqttReconnect cfg env (snd (mqtt_connected env s)) = Some s2"
    by (simp add: loop_connect_disconnected)
  from mqttReconnect_log [OF this] obtain r where
    r: "events s2 = events (snd (mqtt_connected env s)) @ r" "list_all (reconnect_event cfg) r"
    "length (filter is_status r) = length (filter is_connect_ok r)"
    by blast
  let ?new = "MqttConnected False # r"
  have "events s2 = events s @ ?new"
    using r(1) False by (simp add: call_defs)
  moreover have "list_all (reconnect_event cfg) ?new"
    using r(2) by simp
  moreover have "length (filter is_status ?new) = length (filter is_connect_ok ?new)"
    using r(3) by simp
  ultimately show ?thesis by blast
qed

text \<open>The log of one iteration: the connection step, then the keepalive poll and the heartbeat.\<close>

lemma loop_log:
  assumes "loop cfg env s = Some s'"
  shows "\<exists>pre. list_all (reconnect_event cfg) pre \<and>
           length (filter is_status pre) = length (filter is_connect_ok pre) \<and>
           new_events s s' = pre @
             (if 5000 < elapsed env s
              then [MqttLoop, Millis (clock_at env (millis_calls s)),
                    Millis (clock_at env (Suc (millis_calls s))),
                    MqttPublish ''pinpilot/heartbeat'' (DEVICE_NAME cfg)]
              else [MqttLoop, Millis (clock_at env (millis_calls s))])"
proof -
  from assms obtain s2 where s2: "loop_connect cfg env s = Some s2" and s': "s' = loop_rest cfg env s2"
    by (auto simp: loop_eq)
  from loop_connect_log [OF s2] obtain pre where
    pre: "events s2 = events s @ pre" "list_all (reconnect_event cfg) pre"
    "length (filter is_status pre) = length (filter is_connect_ok pre)"
    by blast
  have "new_events s s' = pre @
             (if 5000 < elapsed env s
              then [MqttLoop, Millis (clock_at env (millis_calls s)),
                    Millis (clock_at env (Suc (millis_calls s))),
                    MqttPublish ''pinpilot/heartbeat'' (DEVICE_NAME cfg)]
              else [MqttLoop, Millis (clock_at env (millis_calls s))])"
    using pre(1) loop_connect_frame [OF s2]
    by (simp add: s' loop_rest_def new_events_def elapsed_def heartbeat_due_unat)
  with pre(2,3) show ?thesis by blast
qed

lemma loop_last_ms:
  assumes "loop cfg env s = Some s'"
  shows "last_ms s' =
     (if 5000 < elapsed env s then millis_of (clock_at env (Suc (millis_calls s)))
      else last_ms s)"
proof -
  from assms obtain s2 where s2: "loop_connect cfg env s = Some s2" and s': "s' = loop_rest cfg env s2"
    by (auto simp: loop_eq)
  show ?thesis
    using loop_connect_frame [OF s2]
    by (simp add: s' loop_rest_def elapsed_def heartbeat_due_unat)
qed

lemma loop_returns_iff:
  "loop cfg env s = None \<longleftrightarrow>
     \<not> mqtt_connected_at env (conn_polls s) \<and>
     mqttReconnect cfg env (snd (mqtt_connected env s)) = None"
  by (cases "mqtt_connected_at env (conn_polls s)")
     (simp_all add: loop_eq loop_connect_connected loop_connect_disconnected)

lemma loop_heartbeats:
  assumes "loop cfg env s = Some s'"
  shows "filter is_heartbeat (new_events s s') =
     (if 5000 < elapsed env s then [MqttPublish ''pinpilot/heartbeat'' (DEVICE_NAME cfg)] else [])"
proof -
  from loop_log [OF assms] obtain pre where
    "list_all (reconnect_event cfg) pre"
    "new_events s s' = pre @
             (if 5000 < elapsed env s
              then [MqttLoop, Millis (clock_at env (millis_calls s)),
                    Millis (clock_at env (Suc (millis_calls s))),
                    MqttPublish ''pinpilot/heartbeat'' (DEVICE_NAME cfg)]
              else [MqttLoop, Millis (clock_at env (millis_calls s))])"
    by blast
  then show ?thesis
    by (simp add: reconnect_log_filters)
qed

lemma loop_connected_returns:
  "mqtt_connected_at env (conn_polls s) \<Longrightarrow> loop cfg env s \<noteq> None"
  by (simp add: loop_returns_iff)

lemma loop_online:
  "loop cfg (env_of w 0 f clk) boot =
     Some (loop_rest cfg (env_of w 0 f clk)
       (boot\<lparr>conn_polls := 1, events := [MqttConnected True]\<rparr>))"
  by (simp add: loop_eq loop_connect_connected env_of_def boot_def)

lemma loop_connected_eq:
  "mqtt_connected_at env (conn_polls s) \<Longrightarrow>
   loop cfg env s =
     Some (loop_rest cfg env
       (s\<lparr>conn_polls := Suc (conn_polls s), events := events s @ [MqttConnected True]\<rparr>))"
  by (simp add: loop_eq loop_connect_connected)

text \<open>
  C1, as the code has it. The test is \<open>millis() - last > 5000\<close>: in every iteration of
  \<open>loop\<close> that computes an elapsed time of more than 5000 ms, exactly one message goes to
  \<open>pinpilot/heartbeat\<close>, its payload is the device name, and \<open>last\<close> becomes the value of
  the second read of the counter. At an elapsed time of exactly 5000 ms nothing is
  published and \<open>last\<close> keeps its value. An iteration that starts with the client
  connected always gets that far.
\<close>

theorem heartbeat_when_due:
  "(loop cfg env s = Some s' \<and> 5000 < elapsed env s \<longrightarrow>
      filter is_heartbeat (new_events s s') =
        [MqttPublish ''pinpilot/heartbeat'' (DEVICE_NAME cfg)] \<and>
      last_ms s' = millis_of (clock_at env (Suc (millis_calls s)))) \<and>
   (loop cfg env s = Some s' \<and> elapsed env s = 5000 \<longrightarrow>
      filter is_heartbeat (new_events s s') = [] \<and> last_ms s' = last_ms s) \<and>
   (mqtt_connected_at env (conn_polls s) \<longrightarrow> loop cfg env s \<noteq> None)"
  using loop_heartbeats [of cfg env s s'] loop_last_ms [of cfg env s s']
    loop_connected_returns [of env s cfg]
  by auto

text \<open>The first iteration after boot, with the clock at 5001 and then 5003.\<close>

theorem heartbeat_when_due_witness:
  "loop cfg_default (env_of 0 0 0 (\<lambda>i. 5001 + 2 * i)) boot =
     Some \<lparr>last_ms = 5003,
           events = [MqttConnected True, MqttLoop, Millis 5001, Millis 5003,
                     MqttPublish ''pinpilot/heartbeat'' ''pinpilot_device''],
           wifi_polls = 0, conn_polls = 1, connect_calls = 0, state_calls = 0,
           millis_calls = 2\<rparr> \<and>
   elapsed (env_of 0 0 0 (\<lambda>i. 5001 + 2 * i)) boot = 5001 \<and>
   mqtt_connected_at (env_of 0 0 0 (\<lambda>i. 5001 + 2 * i)) (conn_polls boot) \<and>
   filter is_heartbeat (new_events boot
       \<lparr>last_ms = 5003,
        events = [MqttConnected True, MqttLoop, Millis 5001, Millis 5003,
                  MqttPublish ''pinpilot/heartbeat'' ''pinpilot_device''],
        wifi_polls = 0, conn_polls = 1, connect_calls = 0, state_calls = 0,
        millis_calls = 2\<rparr>) =
     [MqttPublish ''pinpilot/heartbeat'' ''pinpilot_device'']"
proof -
  let ?env = "env_of 0 0 0 (\<lambda>i. 5001 + 2 * i)"
  let ?s' = "\<lparr>last_ms = 5003,
           events = [MqttConnected True, MqttLoop, Millis 5001, Millis 5003,
                     MqttPublish ''pinpilot/heartbeat'' ''pinpilot_device''],
           wifi_polls = 0, conn_polls = 1, connect_calls = 0, state_calls = 0,
           millis_calls = 2\<rparr>"
  have e: "elapsed ?env boot = 5001"
    by (simp add: elapsed_def env_of_def boot_def millis_of_def)
  have c: "mqtt_connected_at ?env (conn_polls boot)"
    by (simp add: env_of_def)
  have l: "loop cfg_default ?env boot = Some ?s'"
    unfolding loop_online
    by (simp add: loop_rest_def heartbeat_due_def env_of_def boot_def millis_of_def
        cfg_default_def DEVICE_NAME_def)
  from heartbeat_when_due [of cfg_default ?env boot ?s'] l e
  have "filter is_heartbeat (new_events boot ?s') =
        [MqttPublish ''pinpilot/heartbeat'' (DEVICE_NAME cfg_default)]"
    by simp
  with l e c show ?thesis
    by (simp add: cfg_default_def DEVICE_NAME_def)
qed

text \<open>
  C1 as stated asks for a publish when exactly 5000 ms have elapsed. The first iteration
  after boot with the clock at 5000 computes an elapsed time of 5000, publishes nothing
  and leaves \<open>last\<close> at 0.
\<close>

theorem no_heartbeat_at_5000:
  "elapsed (env_still 5000) boot = 5000 \<and>
   loop cfg_default (env_still 5000) boot =
     Some \<lparr>last_ms = 0, events = [MqttConnected True, MqttLoop, Millis 5000],
           wifi_polls = 0, conn_polls = 1, connect_calls = 0, state_calls = 0,
           millis_calls = 1\<rparr>"
proof -
  have "elapsed (env_still 5000) boot = 5000"
    by (simp add: elapsed_def env_still_def env_of_def boot_def millis_of_def)
  moreover have "loop cfg_default (env_still 5000) boot =
     Some \<lparr>last_ms = 0, events = [MqttConnected True, MqttLoop, Millis 5000],
           wifi_polls = 0, conn_polls = 1, connect_calls = 0, state_calls = 0,
           millis_calls = 1\<rparr>"
    unfolding env_still_def loop_online
    by (simp add: loop_rest_def heartbeat_due_def env_of_def boot_def millis_of_def)
  ultimately show ?thesis by simp
qed

text \<open>
  C5. In every iteration of \<open>loop\<close> that computes an elapsed time of less than 5000 ms,
  nothing is published to \<open>pinpilot/heartbeat\<close> and \<open>last\<close> keeps its value.
\<close>

theorem no_heartbeat_before_due:
  "loop cfg env s = Some s' \<and> elapsed env s < 5000 \<longrightarrow>
     filter is_heartbeat (new_events s s') = [] \<and> last_ms s' = last_ms s"
  using loop_heartbeats [of cfg env s s'] loop_last_ms [of cfg env s s']
  by auto

text \<open>The first iteration after boot, with the clock at 4999.\<close>

theorem no_heartbeat_before_due_witness:
  "loop cfg_default (env_still 4999) boot =
     Some \<lparr>last_ms = 0, events = [MqttConnected True, MqttLoop, Millis 4999],
           wifi_polls = 0, conn_polls = 1, connect_calls = 0, state_calls = 0,
           millis_calls = 1\<rparr> \<and>
   elapsed (env_still 4999) boot = 4999 \<and>
   filter is_heartbeat (new_events boot
       \<lparr>last_ms = 0, events = [MqttConnected True, MqttLoop, Millis 4999],
        wifi_polls = 0, conn_polls = 1, connect_calls = 0, state_calls = 0,
        millis_calls = 1\<rparr>) = []"
proof -
  let ?env = "env_still 4999"
  let ?s' = "\<lparr>last_ms = 0, events = [MqttConnected True, MqttLoop, Millis 4999],
           wifi_polls = 0, conn_polls = 1, connect_calls = 0, state_calls = 0,
           millis_calls = 1\<rparr>"
  have e: "elapsed ?env boot = 4999"
    by (simp add: elapsed_def env_still_def env_of_def boot_def millis_of_def)
  have l: "loop cfg_default ?env boot = Some ?s'"
    unfolding env_still_def loop_online
    by (simp add: loop_rest_def heartbeat_due_def env_of_def boot_def millis_of_def)
  from no_heartbeat_before_due [of cfg_default ?env boot ?s'] l e
  have "filter is_heartbeat (new_events boot ?s') = []"
    by simp
  with l e show ?thesis by simp
qed

lemma loop_rest_log:
  "\<exists>rest. events (loop_rest cfg env s2) = events s2 @ MqttLoop # rest \<and> MqttLoop \<notin> set rest"
  by (simp add: loop_rest_def)

lemma loop_polls_once:
  assumes "loop cfg env s = Some s'"
  shows "length (filter (\<lambda>e. e = MqttLoop) (new_events s s')) = 1"
proof -
  from loop_log [OF assms] obtain pre where
    "list_all (reconnect_event cfg) pre"
    "new_events s s' = pre @
             (if 5000 < elapsed env s
              then [MqttLoop, Millis (clock_at env (millis_calls s)),
                    Millis (clock_at env (Suc (millis_calls s))),
                    MqttPublish ''pinpilot/heartbeat'' (DEVICE_NAME cfg)]
              else [MqttLoop, Millis (clock_at env (millis_calls s))])"
    by blast
  then show ?thesis
    by (simp add: reconnect_log_filters)
qed

lemma loop_reconnects_first:
  assumes down: "\<not> mqtt_connected_at env (conn_polls s)"
    and ret: "loop cfg env s = Some s'"
  shows "\<exists>s2 rest. mqttReconnect cfg env (snd (mqtt_connected env s)) = Some s2 \<and>
           events s' = events s2 @ MqttLoop # rest \<and>
           filter (\<lambda>e. e = MqttLoop \<or> is_heartbeat e) (new_events s s2) = [] \<and>
           MqttLoop \<notin> set rest"
proof -
  from ret obtain s2 where s2: "loop_connect cfg env s = Some s2" and s': "s' = loop_rest cfg env s2"
    by (auto simp: loop_eq)
  from s2 down have r: "mqttReconnect cfg env (snd (mqtt_connected env s)) = Some s2"
    by (simp add: loop_connect_disconnected)
  from loop_connect_log [OF s2] obtain new where
    new: "events s2 = events s @ new" "list_all (reconnect_event cfg) new"
    by blast
  have "filter (\<lambda>e. e = MqttLoop \<or> is_heartbeat e) new = []"
    using new(2) by (auto simp: filter_empty_conv list_all_iff dest: reconnect_event_quiet)
  then have q: "filter (\<lambda>e. e = MqttLoop \<or> is_heartbeat e) (new_events s s2) = []"
    using new(1) by (simp add: new_events_append)
  from loop_rest_log [of cfg env s2] obtain rest where
    "events s' = events s2 @ MqttLoop # rest" "MqttLoop \<notin> set rest"
    unfolding s' by blast
  with r q show ?thesis by blast
qed

text \<open>
  The first statement of \<open>loop\<close> when the client reports disconnected at entry and again
  at the head of the loop of \<open>mqttReconnect\<close>, the connect succeeds and the client then
  reports connected.
\<close>

lemma loop_connect_dropped:
  assumes "\<not> mqtt_connected_at env (conn_polls s)"
    and "\<not> mqtt_connected_at env (Suc (conn_polls s))"
    and "mqtt_connected_at env (Suc (Suc (conn_polls s)))"
    and "mqtt_connect_at env (connect_calls s)"
  shows "loop_connect cfg env s =
     Some (s\<lparr>conn_polls := conn_polls s + 3, connect_calls := Suc (connect_calls s),
       events := events s @ MqttConnected False # successful_attempt cfg\<rparr>)"
proof -
  let ?s1 = "snd (mqtt_connected env s)"
  have "mqttReconnect cfg env ?s1 =
     Some (?s1\<lparr>conn_polls := conn_polls ?s1 + 0 + 2, connect_calls := connect_calls ?s1 + 0 + 1,
       state_calls := state_calls ?s1 + 0,
       events := events ?s1 @ failed_attempts cfg env (state_calls ?s1) 0 @
                 successful_attempt cfg\<rparr>)"
    using assms by (intro mqttReconnect_after_failures) (simp_all add: call_defs)
  then show ?thesis
    using assms(1) by (simp add: loop_connect_disconnected) (simp add: call_defs)
qed

text \<open>
  C4. An iteration of \<open>loop\<close> that finds the client disconnected at entry returns only
  if \<open>mqttReconnect\<close> returns, and then its log is the log up to the return of
  \<open>mqttReconnect\<close>, which holds no keepalive poll and no heartbeat publish, followed by
  the keepalive poll and whatever comes after it. Every iteration that returns, connected
  at entry or not, logs exactly one keepalive poll.
\<close>

theorem reconnect_before_poll:
  "(\<not> mqtt_connected_at env (conn_polls s) \<and> loop cfg env s = Some s' \<longrightarrow>
      (\<exists>s2 rest. mqttReconnect cfg env (snd (mqtt_connected env s)) = Some s2 \<and>
         events s' = events s2 @ MqttLoop # rest \<and>
         filter (\<lambda>e. e = MqttLoop \<or> is_heartbeat e) (new_events s s2) = [] \<and>
         MqttLoop \<notin> set rest)) \<and>
   (\<not> mqtt_connected_at env (conn_polls s) \<longrightarrow>
      (loop cfg env s = None \<longleftrightarrow>
       mqttReconnect cfg env (snd (mqtt_connected env s)) = None)) \<and>
   (loop cfg env s = Some s' \<longrightarrow>
      length (filter (\<lambda>e. e = MqttLoop) (new_events s s')) = 1)"
  using loop_reconnects_first [of env s cfg s'] loop_returns_iff [of cfg env s]
    loop_polls_once [of cfg env s s']
  by blast

text \<open>The first iteration after boot with the connection down.\<close>

theorem reconnect_before_poll_witness:
  "\<not> mqtt_connected_at (env_dropped 7) (conn_polls boot) \<and>
   loop cfg_default (env_dropped 7) boot =
     Some \<lparr>last_ms = 0,
           events = [MqttConnected False,
                     MqttConnected False, SerialPrint ''MQTT connecting...'',
                     MqttConnect ''pinpilot_device'' True, SerialPrintln ''connected'',
                     MqttPublish ''pinpilot/status'' ''online'', MqttConnected True,
                     MqttLoop, Millis 7],
           wifi_polls = 0, conn_polls = 3, connect_calls = 1, state_calls = 0,
           millis_calls = 1\<rparr> \<and>
   length (filter (\<lambda>e. e = MqttLoop) (new_events boot
     \<lparr>last_ms = 0,
      events = [MqttConnected False,
                MqttConnected False, SerialPrint ''MQTT connecting...'',
                MqttConnect ''pinpilot_device'' True, SerialPrintln ''connected'',
                MqttPublish ''pinpilot/status'' ''online'', MqttConnected True,
                MqttLoop, Millis 7],
      wifi_polls = 0, conn_polls = 3, connect_calls = 1, state_calls = 0,
      millis_calls = 1\<rparr>)) = 1 \<and>
   mqttReconnect cfg_default (env_dropped 7) (snd (mqtt_connected (env_dropped 7) boot)) \<noteq> None"
proof -
  let ?env = "env_dropped 7"
  let ?s' = "\<lparr>last_ms = 0,
           events = [MqttConnected False,
                     MqttConnected False, SerialPrint ''MQTT connecting...'',
                     MqttConnect ''pinpilot_device'' True, SerialPrintln ''connected'',
                     MqttPublish ''pinpilot/status'' ''online'', MqttConnected True,
                     MqttLoop, Millis 7],
           wifi_polls = 0, conn_polls = 3, connect_calls = 1, state_calls = 0,
           millis_calls = 1\<rparr>"
  have d: "\<not> mqtt_connected_at ?env (conn_polls boot)"
    by (simp add: env_dropped_def env_of_def boot_def)
  have l: "loop cfg_default ?env boot = Some ?s'"
    by (simp add: loop_eq loop_connect_dropped env_dropped_def loop_rest_def heartbeat_due_def
        env_of_def boot_def millis_of_def successful_attempt_def cfg_default_def
        DEVICE_NAME_def)
  from reconnect_before_poll [of ?env boot cfg_default ?s'] d l
  have "length (filter (\<lambda>e. e = MqttLoop) (new_events boot ?s')) = 1"
    and "mqttReconnect cfg_default ?env (snd (mqtt_connected ?env boot)) \<noteq> None"
    by auto
  with d l show ?thesis by simp
qed

text \<open>
  C8. \<open>mqttReconnect\<close> returns with \<open>last\<close> as it found it, and it neither reads the clock
  nor publishes a heartbeat. The value of \<open>last\<close> after an iteration of \<open>loop\<close> is a
  function of \<open>last\<close> before it and of the clock alone, whether the iteration had to
  reconnect or not.
\<close>

theorem reconnect_keeps_timer:
  "(mqttReconnect cfg env s = Some s' \<longrightarrow>
      last_ms s' = last_ms s \<and> millis_calls s' = millis_calls s \<and>
      filter (\<lambda>e. is_millis e \<or> is_heartbeat e) (new_events s s') = []) \<and>
   (loop cfg env s = Some s'' \<longrightarrow>
      last_ms s'' =
        (if 5000 < elapsed env s then millis_of (clock_at env (Suc (millis_calls s)))
         else last_ms s))"
proof (intro conjI impI)
  assume r: "mqttReconnect cfg env s = Some s'"
  from mqttReconnect_frame [OF r]
  show "last_ms s' = last_ms s" "millis_calls s' = millis_calls s"
    by simp_all
  from mqttReconnect_log [OF r] obtain new where
    new: "events s' = events s @ new" "list_all (reconnect_event cfg) new"
    by blast
  have "filter (\<lambda>e. is_millis e \<or> is_heartbeat e) new = []"
    using new(2) by (auto simp: filter_empty_conv list_all_iff dest: reconnect_event_quiet)
  then show "filter (\<lambda>e. is_millis e \<or> is_heartbeat e) (new_events s s') = []"
    using new(1) by (simp add: new_events_append)
next
  assume "loop cfg env s = Some s''"
  then show "last_ms s'' =
        (if 5000 < elapsed env s then millis_of (clock_at env (Suc (millis_calls s)))
         else last_ms s)"
    by (rule loop_last_ms)
qed

text \<open>
  A heartbeat went out at 5001, the connection dropped, and the reconnect succeeds at
  8000: \<open>last\<close> is still 5001, and the iteration that reconnected computes an elapsed time
  of 2999.
\<close>

theorem reconnect_keeps_timer_witness:
  "mqttReconnect cfg_default (env_of 0 1 0 (\<lambda>i. 8000)) (boot\<lparr>last_ms := 5001\<rparr>) =
     Some \<lparr>last_ms = 5001,
           events = [MqttConnected False, SerialPrint ''MQTT connecting...'',
                     MqttConnect ''pinpilot_device'' True, SerialPrintln ''connected'',
                     MqttPublish ''pinpilot/status'' ''online'', MqttConnected True],
           wifi_polls = 0, conn_polls = 2, connect_calls = 1, state_calls = 0,
           millis_calls = 0\<rparr> \<and>
   loop cfg_default (env_dropped 8000) (boot\<lparr>last_ms := 5001\<rparr>) =
     Some \<lparr>last_ms = 5001,
           events = [MqttConnected False,
                     MqttConnected False, SerialPrint ''MQTT connecting...'',
                     MqttConnect ''pinpilot_device'' True, SerialPrintln ''connected'',
                     MqttPublish ''pinpilot/status'' ''online'', MqttConnected True,
                     MqttLoop, Millis 8000],
           wifi_polls = 0, conn_polls = 3, connect_calls = 1, state_calls = 0,
           millis_calls = 1\<rparr> \<and>
   elapsed (env_dropped 8000) (boot\<lparr>last_ms := 5001\<rparr>) = 2999"
proof -
  let ?env = "env_of 0 1 0 (\<lambda>i. 8000)"
  let ?s = "boot\<lparr>last_ms := 5001\<rparr>"
  let ?s1 = "\<lparr>last_ms = 5001,
           events = [MqttConnected False, SerialPrint ''MQTT connecting...'',
                     MqttConnect ''pinpilot_device'' True, SerialPrintln ''connected'',
                     MqttPublish ''pinpilot/status'' ''online'', MqttConnected True],
           wifi_polls = 0, conn_polls = 2, connect_calls = 1, state_calls = 0,
           millis_calls = 0\<rparr>"
  let ?s2 = "\<lparr>last_ms = 5001,
           events = [MqttConnected False,
                     MqttConnected False, SerialPrint ''MQTT connecting...'',
                     MqttConnect ''pinpilot_device'' True, SerialPrintln ''connected'',
                     MqttPublish ''pinpilot/status'' ''online'', MqttConnected True,
                     MqttLoop, Millis 8000],
           wifi_polls = 0, conn_polls = 3, connect_calls = 1, state_calls = 0,
           millis_calls = 1\<rparr>"
  have "mqttReconnect cfg_default ?env ?s =
     Some (?s\<lparr>conn_polls := conn_polls ?s + 0 + 2, connect_calls := connect_calls ?s + 0 + 1,
       state_calls := state_calls ?s + 0,
       events := events ?s @ failed_attempts cfg_default ?env (state_calls ?s) 0 @
                 successful_attempt cfg_default\<rparr>)"
    by (rule mqttReconnect_after_failures) (simp_all add: env_of_def boot_def)
  then have r: "mqttReconnect cfg_default ?env ?s = Some ?s1"
    by (simp add: boot_def successful_attempt_def cfg_default_def DEVICE_NAME_def)
  have e: "elapsed (env_dropped 8000) ?s = 2999"
    by (simp add: elapsed_def env_dropped_def env_of_def boot_def millis_of_def)
  have l: "loop cfg_default (env_dropped 8000) ?s = Some ?s2"
    by (simp add: loop_eq loop_connect_dropped env_dropped_def loop_rest_def heartbeat_due_def
        env_of_def boot_def millis_of_def successful_attempt_def cfg_default_def
        DEVICE_NAME_def)
  from reconnect_keeps_timer [of cfg_default ?env ?s ?s1]
    reconnect_keeps_timer [of cfg_default "env_dropped 8000" ?s _ ?s2] r l e
  have "last_ms ?s1 = last_ms ?s \<and> last_ms ?s2 = last_ms ?s"
    by simp
  with r l e show ?thesis by simp
qed

subsection \<open>The elapsed-time test across wraparound of the counter\<close>

lemma elapsed_true:
  assumes "last_ms s = millis_of t0" and "t0 \<le> clock_at env (millis_calls s)"
    and "clock_at env (millis_calls s) - t0 < 2 ^ 32"
  shows "elapsed env s = clock_at env (millis_calls s) - t0"
  using assms by (simp add: elapsed_def millis_of_diff)

text \<open>
  C10. \<open>loop\<close> decides on the 32-bit unsigned difference of the counter and \<open>last\<close>: an
  iteration publishes a heartbeat exactly when that difference, read as a number, is
  more than 5000. For a timestamp taken at time \<open>t0\<close> and a counter read at a later time
  \<open>t1\<close> the difference is \<open>t1 - t0\<close> modulo \<open>2 ^ 32\<close>, and when less than \<open>2 ^ 32\<close> ms have
  passed it is the true elapsed time. So an iteration that finds in \<open>last\<close> the 32-bit
  value of a time \<open>t0\<close> and reads the clock less than \<open>2 ^ 32\<close> ms later publishes a
  heartbeat exactly when more than 5000 ms have passed, and then stores the 32-bit value
  of the next reading, wherever the counter wrapped in between. An iteration that starts
  with the client connected always returns.
\<close>

theorem elapsed_wraparound:
  "(t0 \<le> t1 \<longrightarrow> unat (millis_of t1 - millis_of t0) = (t1 - t0) mod 2 ^ 32) \<and>
   (t0 \<le> t1 \<and> t1 - t0 < 2 ^ 32 \<longrightarrow>
      unat (millis_of t1 - millis_of t0) = t1 - t0 \<and>
      (heartbeat_due (millis_of t1) (millis_of t0) \<longleftrightarrow> 5000 < t1 - t0)) \<and>
   (loop cfg env s = Some s' \<longrightarrow>
      filter is_heartbeat (new_events s s') =
        (if 5000 < unat (millis_of (clock_at env (millis_calls s)) - last_ms s)
         then [MqttPublish ''pinpilot/heartbeat'' (DEVICE_NAME cfg)] else [])) \<and>
   (loop cfg env s = Some s' \<and> last_ms s = millis_of t0 \<and>
    t0 \<le> clock_at env (millis_calls s) \<and> clock_at env (millis_calls s) - t0 < 2 ^ 32 \<longrightarrow>
      filter is_heartbeat (new_events s s') =
        (if 5000 < clock_at env (millis_calls s) - t0
         then [MqttPublish ''pinpilot/heartbeat'' (DEVICE_NAME cfg)] else []) \<and>
      last_ms s' =
        (if 5000 < clock_at env (millis_calls s) - t0
         then millis_of (clock_at env (Suc (millis_calls s))) else millis_of t0)) \<and>
   (mqtt_connected_at env (conn_polls s) \<longrightarrow> loop cfg env s \<noteq> None)"
proof (intro conjI impI)
  assume "t0 \<le> t1"
  then show "unat (millis_of t1 - millis_of t0) = (t1 - t0) mod 2 ^ 32"
    by (rule millis_of_diff)
next
  assume h: "t0 \<le> t1 \<and> t1 - t0 < 2 ^ 32"
  then show "unat (millis_of t1 - millis_of t0) = t1 - t0"
    by (simp add: millis_of_diff)
  with h show "heartbeat_due (millis_of t1) (millis_of t0) \<longleftrightarrow> 5000 < t1 - t0"
    by (simp add: heartbeat_due_unat)
next
  assume "loop cfg env s = Some s'"
  then show "filter is_heartbeat (new_events s s') =
        (if 5000 < unat (millis_of (clock_at env (millis_calls s)) - last_ms s)
         then [MqttPublish ''pinpilot/heartbeat'' (DEVICE_NAME cfg)] else [])"
    using loop_heartbeats [of cfg env s s'] by (simp add: elapsed_def)
next
  assume h: "loop cfg env s = Some s' \<and> last_ms s = millis_of t0 \<and>
    t0 \<le> clock_at env (millis_calls s) \<and> clock_at env (millis_calls s) - t0 < 2 ^ 32"
  then have l: "loop cfg env s = Some s'" and t: "last_ms s = millis_of t0"
    by simp_all
  from h have e: "elapsed env s = clock_at env (millis_calls s) - t0"
    by (intro elapsed_true) simp_all
  show "filter is_heartbeat (new_events s s') =
        (if 5000 < clock_at env (millis_calls s) - t0
         then [MqttPublish ''pinpilot/heartbeat'' (DEVICE_NAME cfg)] else [])"
    using loop_heartbeats [OF l] e by simp
  show "last_ms s' =
        (if 5000 < clock_at env (millis_calls s) - t0
         then millis_of (clock_at env (Suc (millis_calls s))) else millis_of t0)"
    using loop_last_ms [OF l] e t by simp
next
  assume "mqtt_connected_at env (conn_polls s)"
  then show "loop cfg env s \<noteq> None"
    by (rule loop_connected_returns)
qed

text \<open>
  A heartbeat went out 1000 ms before the counter wrapped, and the iteration reads the
  clock 4001 ms after the wrap: the counter went down from 4294966296 to 4001, the
  difference is 5001, and the heartbeat is published.
\<close>

theorem elapsed_wraparound_witness:
  "(4294966296 :: nat) \<le> 4294971297 \<and> (4294971297 :: nat) - 4294966296 < 2 ^ 32 \<and>
   millis_of 4294971297 < millis_of 4294966296 \<and>
   millis_of 4294971297 = 4001 \<and>
   unat (millis_of 4294971297 - millis_of 4294966296) = 5001 \<and>
   heartbeat_due (millis_of 4294971297) (millis_of 4294966296) \<and>
   mqtt_connected_at (env_still 4294971297) (conn_polls (boot\<lparr>last_ms := millis_of 4294966296\<rparr>)) \<and>
   loop cfg_default (env_still 4294971297) (boot\<lparr>last_ms := millis_of 4294966296\<rparr>) =
     Some \<lparr>last_ms = 4001,
           events = [MqttConnected True, MqttLoop, Millis 4294971297, Millis 4294971297,
                     MqttPublish ''pinpilot/heartbeat'' ''pinpilot_device''],
           wifi_polls = 0, conn_polls = 1, connect_calls = 0, state_calls = 0,
           millis_calls = 2\<rparr> \<and>
   filter is_heartbeat (new_events (boot\<lparr>last_ms := millis_of 4294966296\<rparr>)
       \<lparr>last_ms = 4001,
        events = [MqttConnected True, MqttLoop, Millis 4294971297, Millis 4294971297,
                  MqttPublish ''pinpilot/heartbeat'' ''pinpilot_device''],
        wifi_polls = 0, conn_polls = 1, connect_calls = 0, state_calls = 0,
        millis_calls = 2\<rparr>) =
     [MqttPublish ''pinpilot/heartbeat'' ''pinpilot_device'']"
proof -
  let ?env = "env_still 4294971297"
  let ?init = "boot\<lparr>last_ms := millis_of 4294966296\<rparr>"
  let ?fin = "\<lparr>last_ms = 4001,
           events = [MqttConnected True, MqttLoop, Millis 4294971297, Millis 4294971297,
                     MqttPublish ''pinpilot/heartbeat'' ''pinpilot_device''],
           wifi_polls = 0, conn_polls = 1, connect_calls = 0, state_calls = 0,
           millis_calls = 2\<rparr>"
  have c: "mqtt_connected_at ?env (conn_polls ?init)"
    by (simp add: env_still_def env_of_def)
  have l: "loop cfg_default ?env ?init = Some ?fin"
    by (simp only: loop_connected_eq [OF c])
       (simp add: loop_rest_def heartbeat_due_def env_still_def env_of_def boot_def
         millis_of_def cfg_default_def DEVICE_NAME_def)
  have t: "last_ms ?init = millis_of 4294966296"
    "(4294966296 :: nat) \<le> clock_at ?env (millis_calls ?init)"
    "clock_at ?env (millis_calls ?init) - 4294966296 < 2 ^ 32"
    by (simp_all add: env_still_def env_of_def boot_def)
  have k: "clock_at ?env (millis_calls ?init) = 4294971297"
    by (simp add: env_still_def env_of_def)
  have n: "(4294966296 :: nat) \<le> 4294971297 \<and> (4294971297 :: nat) - 4294966296 < 2 ^ 32"
    by simp
  note inst = elapsed_wraparound
    [where ?t0.0 = 4294966296 and ?t1.0 = 4294971297 and cfg = cfg_default and env = ?env
       and s = ?init and s' = ?fin]
  from inst n have "unat (millis_of 4294971297 - millis_of 4294966296) = 4294971297 - 4294966296"
    and due: "heartbeat_due (millis_of 4294971297) (millis_of 4294966296) \<longleftrightarrow>
      5000 < (4294971297 :: nat) - 4294966296"
    by blast+
  then have u: "unat (millis_of 4294971297 - millis_of 4294966296) = 5001"
    and d: "heartbeat_due (millis_of 4294971297) (millis_of 4294966296)"
    by simp_all
  from inst l t have "filter is_heartbeat (new_events ?init ?fin) =
        (if 5000 < clock_at ?env (millis_calls ?init) - 4294966296
         then [MqttPublish ''pinpilot/heartbeat'' (DEVICE_NAME cfg_default)] else [])"
    by blast
  then have f: "filter is_heartbeat (new_events ?init ?fin) =
        [MqttPublish ''pinpilot/heartbeat'' ''pinpilot_device'']"
    unfolding k by (simp add: cfg_default_def DEVICE_NAME_def)
  note u d f
  moreover have "millis_of 4294971297 < millis_of 4294966296" "millis_of 4294971297 = 4001"
    by (simp_all add: millis_of_def)
  ultimately show ?thesis
    using c l by simp
qed

subsection \<open>setup\<close>

lemma wifi_wait_quiet:
  "filter is_pin_op (wifi_wait env c k) = []"
  "filter is_publish (wifi_wait env c k) = []"
  "filter is_millis (wifi_wait env c k) = []"
  "filter is_connect_ok (wifi_wait env c k) = []"
  by (induction k arbitrary: c; simp)+

lemma wifi_wait_no_pin_op: "filter (\<lambda>e. \<not> is_pin_op e) (wifi_wait env c k) = wifi_wait env c k"
  by (induction k arbitrary: c) simp_all

lemma pin_init_pin_ops:
  "filter is_pin_op (pin_init p v) = pin_init p v"
  "filter (\<lambda>e. \<not> is_pin_op e) (pin_init p v) = []"
  "filter is_publish (pin_init p v) = []"
  "filter is_millis (pin_init p v) = []"
  "filter is_connect_ok (pin_init p v) = []"
  by (cases p; simp)+

lemma setup_pins:
  "(case EPAPER_SPI_2P13_CS cfg of None \<Rightarrow> s1
    | Some p \<Rightarrow> digitalWrite p HIGH (pinMode p OUTPUT s1)) =
   s1\<lparr>events := events s1 @ pin_init (EPAPER_SPI_2P13_CS cfg) HIGH\<rparr>"
  "(case WS2812_DIN cfg of None \<Rightarrow> s2
    | Some p \<Rightarrow> digitalWrite p LOW (pinMode p OUTPUT s2)) =
   s2\<lparr>events := events s2 @ pin_init (WS2812_DIN cfg) LOW\<rparr>"
  by (simp_all add: call_defs split: option.splits)

lemma setup_eq:
  "setup_sketch cfg env s =
     map_option (mqtt_setServer MQTT_HOST MQTT_PORT)
       (connectWiFi env
          (s\<lparr>events := events s @ [SerialBegin 115200, Delay 200] @
             pin_init (EPAPER_SPI_2P13_CS cfg) HIGH @ pin_init (WS2812_DIN cfg) LOW\<rparr>))"
  unfolding setup_sketch_def Let_def setup_pins
  by (simp add: call_defs split: option.splits)

lemma setup_returns:
  assumes "\<forall>j<k. wifi_status_at env (wifi_polls s + j) \<noteq> WL_CONNECTED"
    and "wifi_status_at env (wifi_polls s + k) = WL_CONNECTED"
  shows "setup_sketch cfg env s = Some (setup_result cfg env s k)"
proof -
  let ?s3 = "s\<lparr>events := events s @ [SerialBegin 115200, Delay 200] @
             pin_init (EPAPER_SPI_2P13_CS cfg) HIGH @ pin_init (WS2812_DIN cfg) LOW\<rparr>"
  have "connectWiFi env ?s3 = Some (connectWiFi_result env ?s3 k)"
    using assms by (intro connectWiFi_returns) simp_all
  then show ?thesis
    by (simp add: setup_eq setup_result_def connectWiFi_result_def call_defs)
qed

lemma setup_blocks:
  assumes "\<forall>j. wifi_status_at env (wifi_polls s + j) \<noteq> WL_CONNECTED"
  shows "setup_sketch cfg env s = None"
proof -
  let ?s3 = "s\<lparr>events := events s @ [SerialBegin 115200, Delay 200] @
             pin_init (EPAPER_SPI_2P13_CS cfg) HIGH @ pin_init (WS2812_DIN cfg) LOW\<rparr>"
  have "connectWiFi env ?s3 = None"
    using assms by (intro connectWiFi_blocks) simp
  then show ?thesis
    by (simp add: setup_eq)
qed

lemma setup_SomeD:
  assumes "setup_sketch cfg env s = Some s'"
  shows "\<exists>k. (\<forall>j<k. wifi_status_at env (wifi_polls s + j) \<noteq> WL_CONNECTED) \<and>
             wifi_status_at env (wifi_polls s + k) = WL_CONNECTED \<and>
             s' = setup_result cfg env s k"
proof -
  have "\<exists>n. wifi_status_at env (wifi_polls s + n) = WL_CONNECTED"
  proof (rule ccontr)
    assume "\<not> (\<exists>n. wifi_status_at env (wifi_polls s + n) = WL_CONNECTED)"
    then have "\<forall>j. wifi_status_at env (wifi_polls s + j) \<noteq> WL_CONNECTED"
      by simp
    then have "setup_sketch cfg env s = None"
      by (rule setup_blocks)
    with assms show False by simp
  qed
  then obtain n where n: "wifi_status_at env (wifi_polls s + n) = WL_CONNECTED" ..
  define k where "k = (LEAST i. wifi_status_at env (wifi_polls s + i) = WL_CONNECTED)"
  have hit: "wifi_status_at env (wifi_polls s + k) = WL_CONNECTED"
    unfolding k_def using n by (rule LeastI)
  have miss: "\<forall>j<k. wifi_status_at env (wifi_polls s + j) \<noteq> WL_CONNECTED"
  proof (intro allI impI)
    fix j assume "j < k"
    then show "wifi_status_at env (wifi_polls s + j) \<noteq> WL_CONNECTED"
      unfolding k_def by (rule not_less_Least)
  qed
  have "setup_sketch cfg env s = Some (setup_result cfg env s k)"
    using miss hit by (rule setup_returns)
  with assms have "s' = setup_result cfg env s k"
    by simp
  with miss hit show ?thesis by blast
qed

lemma setup_result_pin_ops:
  "filter is_pin_op (new_events s (setup_result cfg env s k)) =
     pin_init (EPAPER_SPI_2P13_CS cfg) HIGH @ pin_init (WS2812_DIN cfg) LOW"
  by (simp add: setup_result_def new_events_def wifi_wait_quiet pin_init_pin_ops)

lemma setup_result_rest:
  "filter (\<lambda>e. \<not> is_pin_op e) (new_events s (setup_result cfg env s k)) =
     [SerialBegin 115200, Delay 200, WiFiMode WIFI_STA, WiFiBegin WIFI_SSID WIFI_PASS] @
     wifi_wait env (wifi_polls s) k @
     [WiFiStatus WL_CONNECTED, SerialPrintln ''\<newline>WiFi connected'',
      MqttSetServer MQTT_HOST MQTT_PORT]"
  by (simp add: setup_result_def new_events_def wifi_wait_no_pin_op pin_init_pin_ops)

lemma setup_result_quiet:
  "filter is_publish (new_events s (setup_result cfg env s k)) = []"
  "filter is_millis (new_events s (setup_result cfg env s k)) = []"
  "filter is_connect_ok (new_events s (setup_result cfg env s k)) = []"
  by (simp_all add: setup_result_def new_events_def wifi_wait_quiet pin_init_pin_ops)

lemma first_hit_unique:
  fixes P :: "nat \<Rightarrow> bool"
  assumes "\<forall>j<k. \<not> P j" "P k" "\<forall>j<k'. \<not> P j" "P k'"
  shows "k = k'"
  using assms by (meson nat_neq_iff)

lemma pin_init_case:
  "pin_init p v = (case p of None \<Rightarrow> [] | Some q \<Rightarrow> [PinMode q OUTPUT, DigitalWrite q v])"
  by (cases p) simp_all

lemma setup_returns_iff:
  "setup_sketch cfg env s \<noteq> None \<longleftrightarrow>
     (\<exists>k. wifi_status_at env (wifi_polls s + k) = WL_CONNECTED)"
proof
  assume "setup_sketch cfg env s \<noteq> None"
  then obtain s' where "setup_sketch cfg env s = Some s'" by auto
  from setup_SomeD [OF this] show "\<exists>k. wifi_status_at env (wifi_polls s + k) = WL_CONNECTED"
    by blast
next
  assume "\<exists>k. wifi_status_at env (wifi_polls s + k) = WL_CONNECTED"
  have "connectWiFi env
          (s\<lparr>events := events s @ [SerialBegin 115200, Delay 200] @
             pin_init (EPAPER_SPI_2P13_CS cfg) HIGH @ pin_init (WS2812_DIN cfg) LOW\<rparr>) \<noteq> None"
  proof -
    from \<open>\<exists>k. wifi_status_at env (wifi_polls s + k) = WL_CONNECTED\<close>
    obtain n where "wifi_status_at env (wifi_polls s + n) = WL_CONNECTED" ..
    then have "wifi_status_at env
        (wifi_polls (s\<lparr>events := events s @ [SerialBegin 115200, Delay 200] @
             pin_init (EPAPER_SPI_2P13_CS cfg) HIGH @ pin_init (WS2812_DIN cfg) LOW\<rparr>) + n) =
        WL_CONNECTED"
      by simp
    from connectWiFi_first [OF this] show ?thesis by auto
  qed
  then show "setup_sketch cfg env s \<noteq> None"
    by (simp add: setup_eq)
qed

lemma setup_pin_ops:
  assumes "setup_sketch cfg env s = Some s'"
  shows "filter is_pin_op (new_events s s') =
       (case EPAPER_SPI_2P13_CS cfg of None \<Rightarrow> []
        | Some p \<Rightarrow> [PinMode p OUTPUT, DigitalWrite p HIGH]) @
       (case WS2812_DIN cfg of None \<Rightarrow> []
        | Some p \<Rightarrow> [PinMode p OUTPUT, DigitalWrite p LOW])"
proof -
  from setup_SomeD [OF assms] obtain k where "s' = setup_result cfg env s k" by blast
  then show ?thesis
    by (simp add: setup_result_pin_ops pin_init_case)
qed

lemma setup_rest_independent:
  assumes a: "setup_sketch cfg env s = Some s'" and b: "setup_sketch cfg' env s = Some s''"
  shows "filter (\<lambda>e. \<not> is_pin_op e) (new_events s s') =
         filter (\<lambda>e. \<not> is_pin_op e) (new_events s s'')"
    and "s'\<lparr>events := []\<rparr> = s''\<lparr>events := []\<rparr>"
proof -
  from setup_SomeD [OF a] obtain k where
    k: "\<forall>j<k. wifi_status_at env (wifi_polls s + j) \<noteq> WL_CONNECTED"
    "wifi_status_at env (wifi_polls s + k) = WL_CONNECTED" "s' = setup_result cfg env s k"
    by blast
  from setup_SomeD [OF b] obtain k' where
    k': "\<forall>j<k'. wifi_status_at env (wifi_polls s + j) \<noteq> WL_CONNECTED"
    "wifi_status_at env (wifi_polls s + k') = WL_CONNECTED" "s'' = setup_result cfg' env s k'"
    by blast
  have "k = k'"
    using k(1,2) k'(1,2)
    by (intro first_hit_unique [of k "\<lambda>j. wifi_status_at env (wifi_polls s + j) = WL_CONNECTED" k'])
  then show "filter (\<lambda>e. \<not> is_pin_op e) (new_events s s') =
         filter (\<lambda>e. \<not> is_pin_op e) (new_events s s'')"
    using k(3) k'(3) by (simp add: setup_result_rest)
  show "s'\<lparr>events := []\<rparr> = s''\<lparr>events := []\<rparr>"
    using \<open>k = k'\<close> k(3) k'(3) by (simp add: setup_result_def)
qed

text \<open>
  C9. Whether \<open>setup\<close> returns depends on the link alone, not on which pins are defined.
  When it returns, the pin operations it has performed are exactly those of the blocks
  whose pin is defined, in the order of the source: nothing for a pin that is not. And
  two builds that differ in their configuration perform the same calls apart from the
  pin operations and end in the same state.
\<close>

theorem setup_skips_undefined_pins:
  "(setup_sketch cfg env s \<noteq> None \<longleftrightarrow>
      (\<exists>k. wifi_status_at env (wifi_polls s + k) = WL_CONNECTED)) \<and>
   (setup_sketch cfg env s = Some s' \<longrightarrow>
      filter is_pin_op (new_events s s') =
        (case EPAPER_SPI_2P13_CS cfg of None \<Rightarrow> []
         | Some p \<Rightarrow> [PinMode p OUTPUT, DigitalWrite p HIGH]) @
        (case WS2812_DIN cfg of None \<Rightarrow> []
         | Some p \<Rightarrow> [PinMode p OUTPUT, DigitalWrite p LOW])) \<and>
   (setup_sketch cfg env s = Some s' \<and> setup_sketch cfg' env s = Some s'' \<longrightarrow>
      filter (\<lambda>e. \<not> is_pin_op e) (new_events s s') =
        filter (\<lambda>e. \<not> is_pin_op e) (new_events s s'') \<and>
      s'\<lparr>events := []\<rparr> = s''\<lparr>events := []\<rparr>)"
  using setup_returns_iff [of cfg env s] setup_pin_ops [of cfg env s s']
    setup_rest_independent [of cfg env s s' cfg' s'']
  by blast

lemma setup_slow_wifi:
  "setup_sketch cfg env_slow_wifi boot = Some (setup_result cfg env_slow_wifi boot 1)"
  by (rule setup_returns) (simp_all add: env_slow_wifi_def env_of_def boot_def)

text \<open>
  A board with the LED pin only against a board with both pins, on a link that
  associates at the second poll.
\<close>

theorem setup_skips_undefined_pins_witness:
  "setup_sketch cfg_led_only env_slow_wifi boot =
     Some \<lparr>last_ms = 0,
           events = [SerialBegin 115200, Delay 200,
                     PinMode 48 OUTPUT, DigitalWrite 48 LOW,
                     WiFiMode WIFI_STA, WiFiBegin ''YOUR_WIFI'' ''YOUR_PASS'',
                     WiFiStatus WL_DISCONNECTED, Delay 300, SerialPrint ''.'',
                     WiFiStatus WL_CONNECTED, SerialPrintln ''\<newline>WiFi connected'',
                     MqttSetServer ''192.168.1.10'' 1883],
           wifi_polls = 2, conn_polls = 0, connect_calls = 0, state_calls = 0,
           millis_calls = 0\<rparr> \<and>
   setup_sketch cfg_board env_slow_wifi boot =
     Some \<lparr>last_ms = 0,
           events = [SerialBegin 115200, Delay 200,
                     PinMode 5 OUTPUT, DigitalWrite 5 HIGH,
                     PinMode 48 OUTPUT, DigitalWrite 48 LOW,
                     WiFiMode WIFI_STA, WiFiBegin ''YOUR_WIFI'' ''YOUR_PASS'',
                     WiFiStatus WL_DISCONNECTED, Delay 300, SerialPrint ''.'',
                     WiFiStatus WL_CONNECTED, SerialPrintln ''\<newline>WiFi connected'',
                     MqttSetServer ''192.168.1.10'' 1883],
           wifi_polls = 2, conn_polls = 0, connect_calls = 0, state_calls = 0,
           millis_calls = 0\<rparr> \<and>
   filter is_pin_op (new_events boot
     \<lparr>last_ms = 0,
      events = [SerialBegin 115200, Delay 200,
                PinMode 48 OUTPUT, DigitalWrite 48 LOW,
                WiFiMode WIFI_STA, WiFiBegin ''YOUR_WIFI'' ''YOUR_PASS'',
                WiFiStatus WL_DISCONNECTED, Delay 300, SerialPrint ''.'',
                WiFiStatus WL_CONNECTED, SerialPrintln ''\<newline>WiFi connected'',
                MqttSetServer ''192.168.1.10'' 1883],
      wifi_polls = 2, conn_polls = 0, connect_calls = 0, state_calls = 0,
      millis_calls = 0\<rparr>) = [PinMode 48 OUTPUT, DigitalWrite 48 LOW]"
proof -
  let ?s' = "\<lparr>last_ms = 0,
           events = [SerialBegin 115200, Delay 200,
                     PinMode 48 OUTPUT, DigitalWrite 48 LOW,
                     WiFiMode WIFI_STA, WiFiBegin ''YOUR_WIFI'' ''YOUR_PASS'',
                     WiFiStatus WL_DISCONNECTED, Delay 300, SerialPrint ''.'',
                     WiFiStatus WL_CONNECTED, SerialPrintln ''\<newline>WiFi connected'',
                     MqttSetServer ''192.168.1.10'' 1883],
           wifi_polls = 2, conn_polls = 0, connect_calls = 0, state_calls = 0,
           millis_calls = 0\<rparr>"
  let ?s'' = "\<lparr>last_ms = 0,
           events = [SerialBegin 115200, Delay 200,
                     PinMode 5 OUTPUT, DigitalWrite 5 HIGH,
                     PinMode 48 OUTPUT, DigitalWrite 48 LOW,
                     WiFiMode WIFI_STA, WiFiBegin ''YOUR_WIFI'' ''YOUR_PASS'',
                     WiFiStatus WL_DISCONNECTED, Delay 300, SerialPrint ''.'',
                     WiFiStatus WL_CONNECTED, SerialPrintln ''\<newline>WiFi connected'',
                     MqttSetServer ''192.168.1.10'' 1883],
           wifi_polls = 2, conn_polls = 0, connect_calls = 0, state_calls = 0,
           millis_calls = 0\<rparr>"
  have a: "setup_sketch cfg_led_only env_slow_wifi boot = Some ?s'"
    unfolding setup_slow_wifi
    by (simp add: setup_result_def cfg_led_only_def env_slow_wifi_def env_of_def boot_def
        WIFI_SSID_def WIFI_PASS_def MQTT_HOST_def MQTT_PORT_def)
  have b: "setup_sketch cfg_board env_slow_wifi boot = Some ?s''"
    unfolding setup_slow_wifi
    by (simp add: setup_result_def cfg_board_def env_slow_wifi_def env_of_def boot_def
        WIFI_SSID_def WIFI_PASS_def MQTT_HOST_def MQTT_PORT_def)
  from setup_skips_undefined_pins [of cfg_led_only env_slow_wifi boot ?s' cfg_board ?s''] a b
  have "filter is_pin_op (new_events boot ?s') = [PinMode 48 OUTPUT, DigitalWrite 48 LOW]"
    by (simp add: cfg_led_only_def)
  with a b show ?thesis by simp
qed

subsection \<open>Runs: setup, then iterations of loop\<close>

lemma heartbeat_is_publish: "is_heartbeat e \<Longrightarrow> is_publish e"
  by (cases e) simp_all

lemma status_is_publish: "is_status e \<Longrightarrow> is_publish e"
  by (cases e) simp_all

lemma heartbeat_times_append:
  "\<exists>p'. heartbeat_times p (a @ b) = heartbeat_times p a @ heartbeat_times p' b"
proof (induction p a rule: heartbeat_times.induct)
  case (1 prev)
  show ?case by auto
qed auto

lemma heartbeat_times_quiet:
  "filter is_heartbeat a = [] \<Longrightarrow> heartbeat_times p a = []"
  by (induction p a rule: heartbeat_times.induct) (auto split: if_splits)

lemma heartbeat_times_tail:
  "heartbeat_times p [MqttLoop, Millis t1] = []"
  "heartbeat_times p [MqttLoop, Millis t1, Millis t2, MqttPublish ''pinpilot/heartbeat'' d] = [t2]"
  by simp_all

lemma spaced_snoc:
  "spaced (ts @ [t]) \<longleftrightarrow> spaced ts \<and> (ts = [] \<or> last ts + 5000 < t)"
  by (induction ts rule: spaced.induct) auto

lemma loop_events:
  assumes "loop cfg env s = Some s'"
  shows "events s' = events s @ new_events s s'"
proof -
  from assms obtain s2 where s2: "loop_connect cfg env s = Some s2" and s': "s' = loop_rest cfg env s2"
    by (auto simp: loop_eq)
  from loop_connect_log [OF s2] obtain pre where "events s2 = events s @ pre"
    by blast
  then show ?thesis
    by (simp add: s' loop_rest_def new_events_def)
qed

lemma loop_millis_calls:
  assumes "loop cfg env s = Some s'"
  shows "millis_calls s' = (if 5000 < elapsed env s then millis_calls s + 2 else Suc (millis_calls s))"
proof -
  from assms obtain s2 where s2: "loop_connect cfg env s = Some s2" and s': "s' = loop_rest cfg env s2"
    by (auto simp: loop_eq)
  show ?thesis
    using loop_connect_frame [OF s2]
    by (simp add: s' loop_rest_def elapsed_def heartbeat_due_unat)
qed

lemma loop_heartbeat_times:
  assumes "loop cfg env s = Some s'"
  shows "heartbeat_times None (events s') = heartbeat_times None (events s) @
     (if 5000 < elapsed env s then [clock_at env (Suc (millis_calls s))] else [])"
proof -
  from loop_log [OF assms] obtain pre where
    pre: "list_all (reconnect_event cfg) pre"
    and new: "new_events s s' = pre @
             (if 5000 < elapsed env s
              then [MqttLoop, Millis (clock_at env (millis_calls s)),
                    Millis (clock_at env (Suc (millis_calls s))),
                    MqttPublish ''pinpilot/heartbeat'' (DEVICE_NAME cfg)]
              else [MqttLoop, Millis (clock_at env (millis_calls s))])"
    (is "_ = pre @ ?tail")
    by blast
  have ev: "events s' = events s @ (pre @ ?tail)"
    using loop_events [OF assms] new by simp
  obtain p1 where p1: "heartbeat_times None (events s') =
      heartbeat_times None (events s) @ heartbeat_times p1 (pre @ ?tail)"
    using heartbeat_times_append [of None "events s" "pre @ ?tail"] ev by auto
  obtain p2 where p2: "heartbeat_times p1 (pre @ ?tail) =
      heartbeat_times p1 pre @ heartbeat_times p2 ?tail"
    using heartbeat_times_append [of p1 pre ?tail] by auto
  have "heartbeat_times p1 pre = []"
    using pre by (intro heartbeat_times_quiet) (simp add: reconnect_log_filters)
  moreover have "heartbeat_times p2 ?tail =
     (if 5000 < elapsed env s then [clock_at env (Suc (millis_calls s))] else [])"
    by simp
  ultimately show ?thesis
    using p1 p2 by simp
qed

lemma elapsed_le_true:
  assumes "last_ms s = millis_of t0" and "t0 \<le> clock_at env (millis_calls s)"
  shows "elapsed env s \<le> clock_at env (millis_calls s) - t0"
  using assms by (simp add: elapsed_def millis_of_diff)

lemma loop_heartbeat_inv:
  assumes mono: "clock_mono env"
    and inv: "heartbeat_inv env s"
    and ret: "loop cfg env s = Some s'"
  shows "heartbeat_inv env s'"
proof (cases "5000 < elapsed env s")
  case False
  have "heartbeat_times None (events s') = heartbeat_times None (events s)"
    using loop_heartbeat_times [OF ret] False by simp
  moreover have "filter is_heartbeat (events s') = filter is_heartbeat (events s)"
    using loop_events [OF ret] loop_heartbeats [OF ret] False
    by (metis append_Nil2 filter_append)
  moreover have "last_ms s' = last_ms s"
    using loop_last_ms [OF ret] False by simp
  moreover have "millis_calls s' = Suc (millis_calls s)"
    using loop_millis_calls [OF ret] False by simp
  ultimately show ?thesis
    using inv by (auto simp: heartbeat_inv_def list_ex_iff)
next
  case True
  let ?ts = "heartbeat_times None (events s)"
  let ?t1 = "clock_at env (millis_calls s)"
  let ?t2 = "clock_at env (Suc (millis_calls s))"
  have ts': "heartbeat_times None (events s') = ?ts @ [?t2]"
    using loop_heartbeat_times [OF ret] True by simp
  have hb': "filter is_heartbeat (events s') =
      filter is_heartbeat (events s) @ [MqttPublish ''pinpilot/heartbeat'' (DEVICE_NAME cfg)]"
    using loop_events [OF ret] loop_heartbeats [OF ret] True
    by (metis filter_append)
  have last': "last_ms s' = millis_of ?t2"
    using loop_last_ms [OF ret] True by simp
  have calls': "millis_calls s' = millis_calls s + 2"
    using loop_millis_calls [OF ret] True by simp
  have t12: "?t1 \<le> ?t2"
    using mono by (simp add: clock_mono_def)
  have gap: "?ts = [] \<or> last ?ts + 5000 < ?t2"
  proof (cases "?ts = []")
    case True
    then show ?thesis by simp
  next
    case False
    with inv obtain i where i: "i < millis_calls s" "clock_at env i = last ?ts"
      and l: "last_ms s = millis_of (last ?ts)"
      by (auto simp: heartbeat_inv_def list_ex_iff)
    have le: "last ?ts \<le> ?t1"
      using mono i by (metis clock_mono_def less_imp_le)
    from elapsed_le_true [OF l le] True have "5000 < ?t1 - last ?ts"
      by simp
    with t12 have "last ?ts + 5000 < ?t2"
      by linarith
    then show ?thesis ..
  qed
  have "spaced (?ts @ [?t2])"
    using inv gap by (simp add: spaced_snoc heartbeat_inv_def)
  moreover have "length (?ts @ [?t2]) = length (filter is_heartbeat (events s'))"
    using inv hb' by (simp add: heartbeat_inv_def)
  moreover have "list_ex (\<lambda>i. clock_at env i = ?t2) [0..<millis_calls s']"
    unfolding calls' list_ex_iff by (rule bexI [of _ "Suc (millis_calls s)"]) simp_all
  ultimately show ?thesis
    using last' by (simp add: heartbeat_inv_def ts')
qed

lemma loops_heartbeat_inv:
  "clock_mono env \<Longrightarrow> heartbeat_inv env s \<Longrightarrow> loops n cfg env s = Some s' \<Longrightarrow>
   heartbeat_inv env s'"
proof (induction n arbitrary: s)
  case 0
  then show ?case by simp
next
  case (Suc n)
  from Suc.prems(3) obtain s1 where s1: "loop cfg env s = Some s1"
    and rest: "loops n cfg env s1 = Some s'"
    by (auto split: option.splits)
  have "heartbeat_inv env s1"
    using Suc.prems(1,2) s1 by (rule loop_heartbeat_inv)
  with Suc.prems(1) show ?case
    using rest by (rule Suc.IH)
qed

lemma setup_heartbeat_inv:
  assumes "setup_sketch cfg env boot = Some s"
  shows "heartbeat_inv env s"
proof -
  from setup_SomeD [OF assms] obtain k where s: "s = setup_result cfg env boot k"
    by blast
  have ev: "events s = new_events boot s"
    by (simp add: new_events_def boot_def)
  have "filter is_publish (new_events boot (setup_result cfg env boot k)) = []"
    by (rule setup_result_quiet)
  then have "filter is_publish (events s) = []"
    using ev s by simp
  then have "filter is_heartbeat (events s) = []"
    by (auto simp: filter_empty_conv dest: heartbeat_is_publish)
  then show ?thesis
    by (simp add: heartbeat_inv_def heartbeat_times_quiet)
qed

lemma setup_last_ms:
  assumes "setup_sketch cfg env s = Some s'"
  shows "last_ms s' = last_ms s"
proof -
  from setup_SomeD [OF assms] obtain k where "s' = setup_result cfg env s k"
    by blast
  then show ?thesis
    by (simp add: setup_result_def)
qed

lemma run_heartbeat_inv:
  assumes "clock_mono env" and "run n cfg env = Some s"
  shows "heartbeat_inv env s"
proof -
  from assms(2) obtain s0 where s0: "setup_sketch cfg env boot = Some s0"
    and l: "loops n cfg env s0 = Some s"
    by (auto simp: run_def split: option.splits)
  have "heartbeat_inv env s0"
    using s0 by (rule setup_heartbeat_inv)
  with assms(1) show ?thesis
    using l by (rule loops_heartbeat_inv)
qed

lemma setup_wifi_up:
  "wifi_status_at env (wifi_polls s) = WL_CONNECTED \<Longrightarrow>
   setup_sketch cfg env s = Some (setup_result cfg env s 0)"
  by (rule setup_returns) simp_all

text \<open>
  C3. In the log of any run of \<open>setup\<close> and any number of iterations of \<open>loop\<close>, on a
  clock that never runs backwards, the times of consecutive heartbeats are more than
  5000 ms apart, every heartbeat has such a time, and \<open>last\<close> holds the 32-bit value of
  the time of the latest one. \<open>last\<close> is written by \<open>loop\<close> alone: \<open>setup\<close> and
  \<open>mqttReconnect\<close> return it unchanged, and an iteration of \<open>loop\<close> either leaves it and
  publishes no heartbeat, or sets it to the reading of the clock just made and publishes
  one heartbeat.
\<close>

theorem heartbeats_spaced:
  "(clock_mono env \<and> run n cfg env = Some s \<longrightarrow>
      spaced (heartbeat_times None (events s)) \<and>
      length (heartbeat_times None (events s)) = length (filter is_heartbeat (events s)) \<and>
      (heartbeat_times None (events s) = [] \<or>
       last_ms s = millis_of (last (heartbeat_times None (events s))))) \<and>
   (setup_sketch cfg env s0 = Some s1 \<longrightarrow> last_ms s1 = last_ms s0) \<and>
   (mqttReconnect cfg env s0 = Some s1 \<longrightarrow> last_ms s1 = last_ms s0) \<and>
   (loop cfg env s0 = Some s1 \<longrightarrow>
      last_ms s1 = last_ms s0 \<and> filter is_heartbeat (new_events s0 s1) = [] \<or>
      last_ms s1 = millis_of (clock_at env (Suc (millis_calls s0))) \<and>
      filter is_heartbeat (new_events s0 s1) =
        [MqttPublish ''pinpilot/heartbeat'' (DEVICE_NAME cfg)])"
proof (intro conjI impI)
  assume "clock_mono env \<and> run n cfg env = Some s"
  then have inv: "heartbeat_inv env s"
    using run_heartbeat_inv by blast
  then show "spaced (heartbeat_times None (events s))"
    and "length (heartbeat_times None (events s)) = length (filter is_heartbeat (events s))"
    and "heartbeat_times None (events s) = [] \<or>
       last_ms s = millis_of (last (heartbeat_times None (events s)))"
    by (auto simp: heartbeat_inv_def)
next
  assume "setup_sketch cfg env s0 = Some s1"
  then show "last_ms s1 = last_ms s0"
    by (rule setup_last_ms)
next
  assume "mqttReconnect cfg env s0 = Some s1"
  then show "last_ms s1 = last_ms s0"
    by (rule mqttReconnect_frame)
next
  assume l: "loop cfg env s0 = Some s1"
  show "last_ms s1 = last_ms s0 \<and> filter is_heartbeat (new_events s0 s1) = [] \<or>
      last_ms s1 = millis_of (clock_at env (Suc (millis_calls s0))) \<and>
      filter is_heartbeat (new_events s0 s1) =
        [MqttPublish ''pinpilot/heartbeat'' (DEVICE_NAME cfg)]"
    using loop_last_ms [OF l] loop_heartbeats [OF l]
    by (cases "5000 < elapsed env s0") simp_all
qed

text \<open>Two iterations on a clock that advances 6000 ms between readings.\<close>

theorem heartbeats_spaced_witness:
  "clock_mono env_every_6s \<and>
   run 2 cfg_default env_every_6s =
     Some \<lparr>last_ms = 24000,
           events = [SerialBegin 115200, Delay 200,
                     WiFiMode WIFI_STA, WiFiBegin ''YOUR_WIFI'' ''YOUR_PASS'',
                     WiFiStatus WL_CONNECTED, SerialPrintln ''\<newline>WiFi connected'',
                     MqttSetServer ''192.168.1.10'' 1883,
                     MqttConnected True, MqttLoop, Millis 6000, Millis 12000,
                     MqttPublish ''pinpilot/heartbeat'' ''pinpilot_device'',
                     MqttConnected True, MqttLoop, Millis 18000, Millis 24000,
                     MqttPublish ''pinpilot/heartbeat'' ''pinpilot_device''],
           wifi_polls = 1, conn_polls = 2, connect_calls = 0, state_calls = 0,
           millis_calls = 4\<rparr> \<and>
   heartbeat_times None
     [SerialBegin 115200, Delay 200,
      WiFiMode WIFI_STA, WiFiBegin ''YOUR_WIFI'' ''YOUR_PASS'',
      WiFiStatus WL_CONNECTED, SerialPrintln ''\<newline>WiFi connected'',
      MqttSetServer ''192.168.1.10'' 1883,
      MqttConnected True, MqttLoop, Millis 6000, Millis 12000,
      MqttPublish ''pinpilot/heartbeat'' ''pinpilot_device'',
      MqttConnected True, MqttLoop, Millis 18000, Millis 24000,
      MqttPublish ''pinpilot/heartbeat'' ''pinpilot_device''] = [12000, 24000] \<and>
   spaced [12000, 24000]"
proof -
  let ?evs = "[SerialBegin 115200, Delay 200,
                     WiFiMode WIFI_STA, WiFiBegin ''YOUR_WIFI'' ''YOUR_PASS'',
                     WiFiStatus WL_CONNECTED, SerialPrintln ''\<newline>WiFi connected'',
                     MqttSetServer ''192.168.1.10'' 1883,
                     MqttConnected True, MqttLoop, Millis 6000, Millis 12000,
                     MqttPublish ''pinpilot/heartbeat'' ''pinpilot_device'',
                     MqttConnected True, MqttLoop, Millis 18000, Millis 24000,
                     MqttPublish ''pinpilot/heartbeat'' ''pinpilot_device'']"
  let ?s = "\<lparr>last_ms = 24000, events = ?evs,
           wifi_polls = 1, conn_polls = 2, connect_calls = 0, state_calls = 0,
           millis_calls = 4\<rparr>"
  have m: "clock_mono env_every_6s"
    by (simp add: clock_mono_def env_every_6s_def env_of_def)
  have s0: "setup_sketch cfg_default env_every_6s boot =
      Some (setup_result cfg_default env_every_6s boot 0)"
    by (rule setup_wifi_up) (simp add: env_every_6s_def env_of_def)
  have c: "\<And>i. mqtt_connected_at env_every_6s i"
    by (simp add: env_every_6s_def env_of_def)
  have r: "run 2 cfg_default env_every_6s = Some ?s"
    by (simp add: run_def s0 numeral_2_eq_2 loop_connected_eq c)
       (simp add: setup_result_def loop_rest_def heartbeat_due_def millis_of_def boot_def
         env_every_6s_def env_of_def cfg_default_def DEVICE_NAME_def WIFI_SSID_def
         WIFI_PASS_def MQTT_HOST_def MQTT_PORT_def)
  have t: "heartbeat_times None ?evs = [12000, 24000]"
    by simp
  from heartbeats_spaced [of env_every_6s 2 cfg_default ?s] m r
  have "spaced (heartbeat_times None (events ?s))"
    by blast
  with m r t show ?thesis by simp
qed

lemma publishes_ok_append:
  "publishes_ok cfg a \<Longrightarrow> publishes_ok cfg b \<Longrightarrow> publishes_ok cfg (a @ b)"
  by (auto simp: publishes_ok_def)

lemma publishes_ok_reconnect:
  assumes "list_all (reconnect_event cfg) pre"
    and "length (filter is_status pre) = length (filter is_connect_ok pre)"
  shows "publishes_ok cfg pre"
  using assms by (auto simp: publishes_ok_def list_all_iff dest: reconnect_event_quiet(5))

lemma loop_publishes_ok:
  assumes "loop cfg env s = Some s'"
  shows "publishes_ok cfg (new_events s s')"
proof -
  from loop_log [OF assms] obtain pre where
    pre: "list_all (reconnect_event cfg) pre"
    "length (filter is_status pre) = length (filter is_connect_ok pre)"
    and new: "new_events s s' = pre @
             (if 5000 < elapsed env s
              then [MqttLoop, Millis (clock_at env (millis_calls s)),
                    Millis (clock_at env (Suc (millis_calls s))),
                    MqttPublish ''pinpilot/heartbeat'' (DEVICE_NAME cfg)]
              else [MqttLoop, Millis (clock_at env (millis_calls s))])"
    (is "_ = pre @ ?tail")
    by blast
  have "publishes_ok cfg pre"
    using pre by (rule publishes_ok_reconnect)
  moreover have "publishes_ok cfg ?tail"
    by (auto simp: publishes_ok_def)
  ultimately show ?thesis
    unfolding new by (rule publishes_ok_append)
qed

lemma loops_publishes_ok:
  "publishes_ok cfg (events s) \<Longrightarrow> loops n cfg env s = Some s' \<Longrightarrow>
   publishes_ok cfg (events s')"
proof (induction n arbitrary: s)
  case 0
  then show ?case by simp
next
  case (Suc n)
  from Suc.prems(2) obtain s1 where s1: "loop cfg env s = Some s1"
    and rest: "loops n cfg env s1 = Some s'"
    by (auto split: option.splits)
  have "publishes_ok cfg (events s @ new_events s s1)"
    using Suc.prems(1) loop_publishes_ok [OF s1] by (rule publishes_ok_append)
  then have "publishes_ok cfg (events s1)"
    using loop_events [OF s1] by simp
  then show ?case
    using rest by (rule Suc.IH)
qed

lemma setup_publishes_ok:
  assumes "setup_sketch cfg env boot = Some s"
  shows "publishes_ok cfg (events s)"
proof -
  from setup_SomeD [OF assms] obtain k where s: "s = setup_result cfg env boot k"
    by blast
  have ev: "events s = new_events boot s"
    by (simp add: new_events_def boot_def)
  have "filter is_publish (new_events boot (setup_result cfg env boot k)) = []"
    and c: "filter is_connect_ok (new_events boot (setup_result cfg env boot k)) = []"
    by (rule setup_result_quiet)+
  then have p: "filter is_publish (events s) = []"
    using ev s by simp
  then have "filter is_status (events s) = []"
    by (auto simp: filter_empty_conv dest: status_is_publish)
  with p c show ?thesis
    using ev s by (simp add: publishes_ok_def)
qed

text \<open>
  C6. In the log of any run of \<open>setup\<close> and any number of iterations of \<open>loop\<close>, every
  publish is either \<open>online\<close> to \<open>pinpilot/status\<close> or the device name to
  \<open>pinpilot/heartbeat\<close>, and the publishes to \<open>pinpilot/status\<close> are as many as the
  successful connects.
\<close>

theorem publishes_two_topics:
  "run n cfg env = Some s \<longrightarrow>
     set (filter is_publish (events s)) \<subseteq>
       {MqttPublish ''pinpilot/status'' ''online'',
        MqttPublish ''pinpilot/heartbeat'' (DEVICE_NAME cfg)} \<and>
     length (filter is_status (events s)) = length (filter is_connect_ok (events s))"
proof
  assume "run n cfg env = Some s"
  then obtain s0 where s0: "setup_sketch cfg env boot = Some s0"
    and l: "loops n cfg env s0 = Some s"
    by (auto simp: run_def split: option.splits)
  have "publishes_ok cfg (events s0)"
    using s0 by (rule setup_publishes_ok)
  then have "publishes_ok cfg (events s)"
    using l by (rule loops_publishes_ok)
  then show "set (filter is_publish (events s)) \<subseteq>
       {MqttPublish ''pinpilot/status'' ''online'',
        MqttPublish ''pinpilot/heartbeat'' (DEVICE_NAME cfg)} \<and>
     length (filter is_status (events s)) = length (filter is_connect_ok (events s))"
    by (simp add: publishes_ok_def)
qed

text \<open>
  One iteration on the fully configured board, with the connection down at first and the
  clock at 6000: both messages are published, once each.
\<close>

theorem publishes_two_topics_witness:
  "run 1 cfg_board (env_dropped 6000) =
     Some \<lparr>last_ms = 6000,
           events = [SerialBegin 115200, Delay 200,
                     PinMode 5 OUTPUT, DigitalWrite 5 HIGH,
                     PinMode 48 OUTPUT, DigitalWrite 48 LOW,
                     WiFiMode WIFI_STA, WiFiBegin ''YOUR_WIFI'' ''YOUR_PASS'',
                     WiFiStatus WL_CONNECTED, SerialPrintln ''\<newline>WiFi connected'',
                     MqttSetServer ''192.168.1.10'' 1883,
                     MqttConnected False,
                     MqttConnected False, SerialPrint ''MQTT connecting...'',
                     MqttConnect ''bench_unit'' True, SerialPrintln ''connected'',
                     MqttPublish ''pinpilot/status'' ''online'', MqttConnected True,
                     MqttLoop, Millis 6000, Millis 6000,
                     MqttPublish ''pinpilot/heartbeat'' ''bench_unit''],
           wifi_polls = 1, conn_polls = 3, connect_calls = 1, state_calls = 0,
           millis_calls = 2\<rparr> \<and>
   filter is_publish
     [SerialBegin 115200, Delay 200,
      PinMode 5 OUTPUT, DigitalWrite 5 HIGH,
      PinMode 48 OUTPUT, DigitalWrite 48 LOW,
      WiFiMode WIFI_STA, WiFiBegin ''YOUR_WIFI'' ''YOUR_PASS'',
      WiFiStatus WL_CONNECTED, SerialPrintln ''\<newline>WiFi connected'',
      MqttSetServer ''192.168.1.10'' 1883,
      MqttConnected False,
      MqttConnected False, SerialPrint ''MQTT connecting...'',
      MqttConnect ''bench_unit'' True, SerialPrintln ''connected'',
      MqttPublish ''pinpilot/status'' ''online'', MqttConnected True,
      MqttLoop, Millis 6000, Millis 6000,
      MqttPublish ''pinpilot/heartbeat'' ''bench_unit''] =
     [MqttPublish ''pinpilot/status'' ''online'',
      MqttPublish ''pinpilot/heartbeat'' ''bench_unit'']"
proof -
  let ?env = "env_dropped 6000"
  let ?evs = "[SerialBegin 115200, Delay 200,
                     PinMode 5 OUTPUT, DigitalWrite 5 HIGH,
                     PinMode 48 OUTPUT, DigitalWrite 48 LOW,
                     WiFiMode WIFI_STA, WiFiBegin ''YOUR_WIFI'' ''YOUR_PASS'',
                     WiFiStatus WL_CONNECTED, SerialPrintln ''\<newline>WiFi connected'',
                     MqttSetServer ''192.168.1.10'' 1883,
                     MqttConnected False,
                     MqttConnected False, SerialPrint ''MQTT connecting...'',
                     MqttConnect ''bench_unit'' True, SerialPrintln ''connected'',
                     MqttPublish ''pinpilot/status'' ''online'', MqttConnected True,
                     MqttLoop, Millis 6000, Millis 6000,
                     MqttPublish ''pinpilot/heartbeat'' ''bench_unit'']"
  let ?s = "\<lparr>last_ms = 6000, events = ?evs,
           wifi_polls = 1, conn_polls = 3, connect_calls = 1, state_calls = 0,
           millis_calls = 2\<rparr>"
  let ?init = "setup_result cfg_board ?env boot 0"
  have s0: "setup_sketch cfg_board ?env boot = Some ?init"
    by (rule setup_wifi_up) (simp add: env_dropped_def env_of_def)
  have c: "\<And>cfg env k. conn_polls (setup_result cfg env boot k) = 0"
    "\<And>cfg env k. connect_calls (setup_result cfg env boot k) = 0"
    by (simp_all add: setup_result_def boot_def)
  have lc: "loop_connect cfg_board ?env ?init =
     Some (?init\<lparr>conn_polls := conn_polls ?init + 3, connect_calls := Suc (connect_calls ?init),
       events := events ?init @ MqttConnected False # successful_attempt cfg_board\<rparr>)"
    by (rule loop_connect_dropped) (simp_all add: c env_dropped_def env_of_def)
  have "loop cfg_board ?env ?init = Some ?s"
    by (simp only: loop_eq lc option.map)
       (simp add: loop_rest_def heartbeat_due_def millis_of_def setup_result_def
        successful_attempt_def boot_def env_dropped_def env_of_def cfg_board_def
        DEVICE_NAME_def WIFI_SSID_def WIFI_PASS_def MQTT_HOST_def MQTT_PORT_def)
  then have r: "run 1 cfg_board ?env = Some ?s"
    by (simp add: run_def s0)
  from publishes_two_topics [of 1 cfg_board ?env ?s] r
  have "set (filter is_publish (events ?s)) \<subseteq>
       {MqttPublish ''pinpilot/status'' ''online'',
        MqttPublish ''pinpilot/heartbeat'' (DEVICE_NAME cfg_board)}"
    by blast
  with r show ?thesis by simp
qed

end
